theory Spec2Isabelle
  imports Complex_Main
begin

section \<open>Data model\<close>

text \<open>
  The types of the application, as the source declares them:
  \<^verbatim>\<open>type Lang = 'zh' | 'en'\<close> and \<^verbatim>\<open>interface PlantData\<close>. The three string-literal
  unions of \<^verbatim>\<open>PlantData\<close> are datatypes, the nested \<^verbatim>\<open>care\<close> object is a record.
\<close>

datatype Lang = zh | en

datatype HealthStatus = Healthy | Needs_Attention | Sick | Unknown

datatype Level = Low | Medium | High

record Care =
  light :: string
  water :: string
  soil :: string
  temp :: string

record PlantData =
  name :: string
  scientificName :: string
  healthStatus :: HealthStatus
  riskLevel :: Level
  symptoms :: "string list"
  causes :: "string list"
  urgency :: Level
  care :: Care
  diagnosisSteps :: "string list"
  treatmentIngredients :: "string list"
  funFact :: string

subsection \<open>JSON values\<close>

text \<open>
  \<^verbatim>\<open>JSON.parse\<close> returns any JSON value, and the cast \<^verbatim>\<open>as PlantData\<close> checks nothing
  at run time: the state \<^verbatim>\<open>data\<close> holds whatever value was parsed, with \<^verbatim>\<open>null\<close> as
  \<open>JNull\<close>. The conditions of the code see a value through its truthiness:
  \<^verbatim>\<open>null\<close>, \<^verbatim>\<open>false\<close>, \<^verbatim>\<open>0\<close> and the empty string are falsy, every array and object is
  truthy. An object keeps its members in the order of the text; reading a member that
  occurs twice gives the last one.
\<close>

datatype json =
    JNull
  | JBool bool
  | JNumber real
  | JString string
  | JArray "json list"
  | JObject "(string \<times> json) list"

definition truthy :: "json \<Rightarrow> bool" where
  "truthy v = (case v of
       JNull \<Rightarrow> False
     | JBool b \<Rightarrow> b
     | JNumber r \<Rightarrow> r \<noteq> 0
     | JString str \<Rightarrow> str \<noteq> []
     | JArray vs \<Rightarrow> True
     | JObject kvs \<Rightarrow> True)"

definition get_member :: "(string \<times> json) list \<Rightarrow> string \<Rightarrow> json option" where
  "get_member kvs k = map_of (rev kvs) k"

text \<open>
  A value conforms to \<^verbatim>\<open>interface PlantData\<close> (and to \<^verbatim>\<open>plantSchema\<close>, which requires
  the same eleven members) when it is an object whose members of these names have the
  declared types: strings, arrays of strings, one of the listed strings for
  \<^verbatim>\<open>healthStatus\<close>, \<^verbatim>\<open>riskLevel\<close> and \<^verbatim>\<open>urgency\<close>, and for \<^verbatim>\<open>care\<close> an object with four
  strings. \<open>as_PlantData\<close> reads such a value as the record; on every other value it is
  \<open>None\<close>. Further members are allowed.
\<close>

definition as_string :: "json \<Rightarrow> string option" where
  "as_string v = (case v of JString str \<Rightarrow> Some str | _ \<Rightarrow> None)"

definition as_strings :: "json \<Rightarrow> string list option" where
  "as_strings v = (case v of JArray vs \<Rightarrow> those (map as_string vs) | _ \<Rightarrow> None)"

definition as_HealthStatus :: "json \<Rightarrow> HealthStatus option" where
  "as_HealthStatus v = (case v of
       JString str \<Rightarrow>
         (if str = ''Healthy'' then Some Healthy
          else if str = ''Needs Attention'' then Some Needs_Attention
          else if str = ''Sick'' then Some Sick
          else if str = ''Unknown'' then Some Unknown
          else None)
     | _ \<Rightarrow> None)"

definition as_Level :: "json \<Rightarrow> Level option" where
  "as_Level v = (case v of
       JString str \<Rightarrow>
         (if str = ''Low'' then Some Low
          else if str = ''Medium'' then Some Medium
          else if str = ''High'' then Some High
          else None)
     | _ \<Rightarrow> None)"

definition as_Care :: "json \<Rightarrow> Care option" where
  "as_Care v = (case v of
       JObject kvs \<Rightarrow>
         Option.bind (Option.bind (get_member kvs ''light'') as_string) (\<lambda>l.
         Option.bind (Option.bind (get_member kvs ''water'') as_string) (\<lambda>w.
         Option.bind (Option.bind (get_member kvs ''soil'') as_string) (\<lambda>so.
         Option.bind (Option.bind (get_member kvs ''temp'') as_string) (\<lambda>te.
         Some \<lparr>light = l, water = w, soil = so, temp = te\<rparr>))))
     | _ \<Rightarrow> None)"

definition as_PlantData :: "json \<Rightarrow> PlantData option" where
  "as_PlantData v = (case v of
       JObject kvs \<Rightarrow>
         Option.bind (Option.bind (get_member kvs ''name'') as_string) (\<lambda>n.
         Option.bind (Option.bind (get_member kvs ''scientificName'') as_string) (\<lambda>sn.
         Option.bind (Option.bind (get_member kvs ''healthStatus'') as_HealthStatus) (\<lambda>hs.
         Option.bind (Option.bind (get_member kvs ''riskLevel'') as_Level) (\<lambda>rl.
         Option.bind (Option.bind (get_member kvs ''symptoms'') as_strings) (\<lambda>sy.
         Option.bind (Option.bind (get_member kvs ''causes'') as_strings) (\<lambda>ca.
         Option.bind (Option.bind (get_member kvs ''urgency'') as_Level) (\<lambda>ur.
         Option.bind (Option.bind (get_member kvs ''care'') as_Care) (\<lambda>cr.
         Option.bind (Option.bind (get_member kvs ''diagnosisSteps'') as_strings) (\<lambda>ds.
         Option.bind (Option.bind (get_member kvs ''treatmentIngredients'') as_strings) (\<lambda>ti.
         Option.bind (Option.bind (get_member kvs ''funFact'') as_string) (\<lambda>ff.
         Some \<lparr>name = n, scientificName = sn, healthStatus = hs, riskLevel = rl,
               symptoms = sy, causes = ca, urgency = ur, care = cr,
               diagnosisSteps = ds, treatmentIngredients = ti, funFact = ff\<rparr>)))))))))))
     | _ \<Rightarrow> None)"

text \<open>The JSON value of a record, as \<^verbatim>\<open>JSON.parse\<close> gives it for a conforming text.\<close>

definition HealthStatus_json :: "HealthStatus \<Rightarrow> json" where
  "HealthStatus_json h = JString (case h of
       Healthy \<Rightarrow> ''Healthy'' | Needs_Attention \<Rightarrow> ''Needs Attention''
     | Sick \<Rightarrow> ''Sick'' | Unknown \<Rightarrow> ''Unknown'')"

definition Level_json :: "Level \<Rightarrow> json" where
  "Level_json l = JString (case l of Low \<Rightarrow> ''Low'' | Medium \<Rightarrow> ''Medium'' | High \<Rightarrow> ''High'')"

definition Care_json :: "Care \<Rightarrow> json" where
  "Care_json c = JObject [(''light'', JString (light c)), (''water'', JString (water c)),
     (''soil'', JString (soil c)), (''temp'', JString (temp c))]"

definition PlantData_json :: "PlantData \<Rightarrow> json" where
  "PlantData_json d = JObject
     [(''name'', JString (name d)), (''scientificName'', JString (scientificName d)),
      (''healthStatus'', HealthStatus_json (healthStatus d)),
      (''riskLevel'', Level_json (riskLevel d)),
      (''symptoms'', JArray (map JString (symptoms d))),
      (''causes'', JArray (map JString (causes d))),
      (''urgency'', Level_json (urgency d)),
      (''care'', Care_json (care d)),
      (''diagnosisSteps'', JArray (map JString (diagnosisSteps d))),
      (''treatmentIngredients'', JArray (map JString (treatmentIngredients d))),
      (''funFact'', JString (funFact d))]"

subsection \<open>Localized error text\<close>

text \<open>
  \<^verbatim>\<open>translations[lang].error\<close>, the text of the error notification. The Chinese text is
  given by the bytes of its UTF-8 encoding. The English text differs between the two
  versions of the component (multi-image and single-image).
\<close>

definition translations_error :: "Lang \<Rightarrow> string" where
  "translations_error l = (case l of
     en \<Rightarrow> ''Could not analyze the images. Please try clear photos of a plant.''
   | zh \<Rightarrow> map char_of [230, 151, 160, 230, 179, 149, 229, 136, 134, 230, 158, 144,
       232, 175, 165, 229, 155, 190, 231, 137, 135, 227, 128, 130, 232, 175, 183, 228,
       184, 138, 228, 188, 160, 230, 184, 133, 230, 153, 176, 231, 154, 132, 230, 164,
       141, 231, 137, 169, 231, 133, 167, 231, 137, 135, 227, 128, 130 :: nat])"

section \<open>The multi-image controller\<close>

text \<open>
  The component \<^verbatim>\<open>App\<close> of the multi-image version (the second source file, next to
  \<^verbatim>\<open>index.tsx\<close>) holds four pieces of React state:
  \<^verbatim>\<open>lang\<close>, \<^verbatim>\<open>isProcessing\<close>, \<^verbatim>\<open>images\<close> (\<^verbatim>\<open>string[] | null\<close>) and \<^verbatim>\<open>data\<close>
  (declared \<^verbatim>\<open>PlantData | null\<close>, at run time a JSON value). The record adds what the handlers leave in the browser:
  the texts passed to \<^verbatim>\<open>alert\<close>, the \<^verbatim>\<open>Promise.all\<close> joins of file reads that have
  not completed, and the calls of \<^verbatim>\<open>callGemini\<close> that have not settled. A pending read
  and an outstanding call carry the \<^verbatim>\<open>lang\<close> of the render whose closure started them,
  because \<^verbatim>\<open>t.error\<close> and the prompt are read from that closure.
\<close>

record 'f App =
  lang :: Lang
  isProcessing :: bool
  images :: "string list option"
  data :: json
  alerts :: "string list"
  pendingReads :: "(Lang \<times> 'f list) list"
  pendingCalls :: "(Lang \<times> string list) list"

definition App_init :: "'f App" where
  "App_init = \<lparr>lang = zh, isProcessing = False, images = None, data = JNull,
     alerts = [], pendingReads = [], pendingCalls = []\<rparr>"

definition remove_nth :: "nat \<Rightarrow> 'a list \<Rightarrow> 'a list" where
  "remove_nth k xs = take k xs @ drop (Suc k) xs"

subsection \<open>Handlers\<close>

text \<open>
  \<^verbatim>\<open>handleImageUpload\<close>, the synchronous part: an absent or empty file list returns at
  once; otherwise \<^verbatim>\<open>setData(null)\<close>, \<^verbatim>\<open>setIsProcessing(true)\<close>, and one read per file
  is started, joined by \<^verbatim>\<open>Promise.all\<close>. There is no test of \<^verbatim>\<open>isProcessing\<close>.
\<close>

definition handleImageUpload :: "'f list \<Rightarrow> 'f App \<Rightarrow> 'f App" where
  "handleImageUpload files s =
     (if files = [] then s
      else s\<lparr>data := JNull, isProcessing := True,
             pendingReads := pendingReads s @ [(lang s, files)]\<rparr>)"

text \<open>
  \<^verbatim>\<open>startSimulationAndAnalysis\<close> up to its \<^verbatim>\<open>await\<close>: \<^verbatim>\<open>setIsProcessing(true)\<close> and the
  call of \<^verbatim>\<open>callGemini(base64Images)\<close> is issued.
\<close>

definition startSimulationAndAnalysis :: "Lang \<Rightarrow> string list \<Rightarrow> 'f App \<Rightarrow> 'f App" where
  "startSimulationAndAnalysis l base64Images s =
     s\<lparr>isProcessing := True, pendingCalls := pendingCalls s @ [(l, base64Images)]\<rparr>"

text \<open>
  The callback given to \<^verbatim>\<open>Promise.all(promises).then\<close>, for the \<open>k\<close>-th pending read:
  \<^verbatim>\<open>setImages(base64Images); startSimulationAndAnalysis(base64Images)\<close>.
\<close>

definition onFilesRead :: "nat \<Rightarrow> string list \<Rightarrow> 'f App \<Rightarrow> 'f App" where
  "onFilesRead k base64Images s =
     (if k < length (pendingReads s)
      then startSimulationAndAnalysis (fst (pendingReads s ! k)) base64Images
             (s\<lparr>images := Some base64Images, pendingReads := remove_nth k (pendingReads s)\<rparr>)
      else s)"

text \<open>
  The response of the service as \<^verbatim>\<open>callGemini\<close> sees it: \<^verbatim>\<open>generateContent\<close> rejects, or
  resolves with a \<^verbatim>\<open>response.text\<close> that is a string or undefined. \<^verbatim>\<open>JSON.parse\<close> belongs
  to the JavaScript runtime and is a parameter: \<open>None\<close> is a thrown \<^verbatim>\<open>SyntaxError\<close>,
  \<open>Some v\<close> the parsed value, of whatever shape. \<^verbatim>\<open>callGemini\<close> returns that value
  unchecked, and \<^verbatim>\<open>null\<close> (here \<open>JNull\<close>) when the text is empty or absent. The request
  itself (prompt, inline image parts, response schema) has no part in the control flow
  and is left out; the \<^verbatim>\<open>catch\<close> of \<^verbatim>\<open>callGemini\<close> only rethrows.
\<close>

datatype response = Rejected | Resolved "string option"

datatype error = ServiceError | SyntaxError

definition callGemini :: "(string \<Rightarrow> json option) \<Rightarrow> response \<Rightarrow> error + json" where
  "callGemini JSON_parse r = (case r of
       Rejected \<Rightarrow> Inl ServiceError
     | Resolved None \<Rightarrow> Inr JNull
     | Resolved (Some jsonText) \<Rightarrow>
         (if jsonText \<noteq> []
          then (case JSON_parse jsonText of
                  None \<Rightarrow> Inl SyntaxError
                | Some v \<Rightarrow> Inr v)
          else Inr JNull))"

text \<open>
  \<^verbatim>\<open>startSimulationAndAnalysis\<close> after its \<^verbatim>\<open>await\<close>, for the \<open>k\<close>-th outstanding call:
  \<^verbatim>\<open>if (result) setData(result)\<close>, so a falsy result is dropped; the \<^verbatim>\<open>catch\<close> block
  alerts \<^verbatim>\<open>t.error\<close> and does \<^verbatim>\<open>setImages(null)\<close>; the \<^verbatim>\<open>finally\<close> block does
  \<^verbatim>\<open>setIsProcessing(false)\<close>.
\<close>

definition onCallSettled :: "nat \<Rightarrow> error + json \<Rightarrow> 'f App \<Rightarrow> 'f App" where
  "onCallSettled k outcome s =
     (if k < length (pendingCalls s)
      then (let s1 = s\<lparr>pendingCalls := remove_nth k (pendingCalls s)\<rparr>;
                s2 = (case outcome of
                        Inr result \<Rightarrow> (if truthy result then s1\<lparr>data := result\<rparr> else s1)
                      | Inl e \<Rightarrow> s1\<lparr>alerts := alerts s1 @ [translations_error (fst (pendingCalls s ! k))],
                                     images := None\<rparr>)
            in s2\<lparr>isProcessing := False\<rparr>)
      else s)"

text \<open>\<^verbatim>\<open>reset\<close>: \<^verbatim>\<open>setImages(null); setData(null)\<close>.\<close>

definition reset :: "'f App \<Rightarrow> 'f App" where
  "reset s = s\<lparr>images := None, data := JNull\<rparr>"

text \<open>The \<^verbatim>\<open>onClick\<close> of the language button: \<^verbatim>\<open>setLang(lang === 'zh' ? 'en' : 'zh')\<close>.\<close>

definition setLang_onClick :: "'f App \<Rightarrow> 'f App" where
  "setLang_onClick s = s\<lparr>lang := (if lang s = zh then en else zh)\<rparr>"

subsection \<open>Rendering\<close>

text \<open>
  The component returns three blocks, each behind its own condition: the landing block
  under \<^verbatim>\<open>!images\<close>, the processing block under \<^verbatim>\<open>images && isProcessing\<close> and the result
  block under \<^verbatim>\<open>images && data && !isProcessing\<close>. An array is truthy even when empty.
  Inside the result block the fourth section stands behind
  \<^verbatim>\<open>data.treatmentIngredients.length > 0\<close>.

  The result block reads the members of \<^verbatim>\<open>data\<close> as the interface declares them. For a
  stored value that conforms, \<open>Result_State\<close> gives the sections it shows. For a truthy
  stored value that does not conform the block is still the one chosen. Some of its
  reads then throw a \<^verbatim>\<open>TypeError\<close> for certain, which leaves the page empty
  (\<open>Result_TypeError\<close>): \<^verbatim>\<open>data.symptoms.map\<close>, \<^verbatim>\<open>data.causes.map\<close> and
  \<^verbatim>\<open>data.diagnosisSteps.map\<close> when the member is not an array, \<^verbatim>\<open>data.care.light\<close> and
  \<^verbatim>\<open>data.treatmentIngredients.length\<close> when the member is absent or null, and
  \<^verbatim>\<open>data.treatmentIngredients.map\<close> when the member is a non-empty string. What the
  block does on the remaining non-conforming values (conversions of odd members, what
  React makes of them as children) is not followed: \<open>Result_Unchecked\<close> stands for that
  evaluation. \<open>reads_pass\<close> says that none of the reads named above throws.
\<close>

definition member_of :: "json \<Rightarrow> string \<Rightarrow> json option" where
  "member_of v k = (case v of JObject kvs \<Rightarrow> get_member kvs k | _ \<Rightarrow> None)"

definition is_array :: "json option \<Rightarrow> bool" where
  "is_array x = (case x of Some (JArray vs) \<Rightarrow> True | _ \<Rightarrow> False)"

definition has_value :: "json option \<Rightarrow> bool" where
  "has_value x = (case x of None \<Rightarrow> False | Some JNull \<Rightarrow> False | _ \<Rightarrow> True)"

definition reads_pass :: "json \<Rightarrow> bool" where
  "reads_pass v =
     (is_array (member_of v ''symptoms'') \<and>
      is_array (member_of v ''causes'') \<and>
      has_value (member_of v ''care'') \<and>
      is_array (member_of v ''diagnosisSteps'') \<and>
      has_value (member_of v ''treatmentIngredients'') \<and>
      (case member_of v ''treatmentIngredients'' of
         Some (JString str) \<Rightarrow> str = []
       | _ \<Rightarrow> True))"

datatype journal_section =
    Summary_Cards
  | Care_Environment_Grid
  | Diagnosis_Timeline
  | Compliance_Medication "string list"

datatype screen =
    Landing_State
  | Processing_State
  | Result_State "journal_section list"
  | Result_TypeError
  | Result_Unchecked json

definition result_sections :: "PlantData \<Rightarrow> journal_section list" where
  "result_sections d =
     [Summary_Cards, Care_Environment_Grid, Diagnosis_Timeline] @
     (if length (treatmentIngredients d) > 0
      then [Compliance_Medication (treatmentIngredients d)] else [])"

definition result_block :: "json \<Rightarrow> screen" where
  "result_block v = (case as_PlantData v of
       Some d \<Rightarrow> Result_State (result_sections d)
     | None \<Rightarrow> if reads_pass v then Result_Unchecked v else Result_TypeError)"

definition render :: "'f App \<Rightarrow> screen list" where
  "render s =
     (if images s = None then [Landing_State] else []) @
     (if images s \<noteq> None \<and> isProcessing s then [Processing_State] else []) @
     (if images s \<noteq> None \<and> truthy (data s) \<and> \<not> isProcessing s
      then [result_block (data s)] else [])"

text \<open>
  The controls each block offers: the landing block has the language button and the
  upload button (which opens the hidden file input), the result block has the back
  button bound to \<^verbatim>\<open>reset\<close>, the processing block has none. For a result block that
  threw there is none, and for one on an unchecked value none is counted, since the
  block may not have been drawn.
\<close>

datatype control = Language_Button | Upload_Button | Back_Button

fun controls :: "screen \<Rightarrow> control list" where
  "controls Landing_State = [Language_Button, Upload_Button]"
| "controls Processing_State = []"
| "controls (Result_State secs) = [Back_Button]"
| "controls Result_TypeError = []"
| "controls (Result_Unchecked v) = []"

subsection \<open>Joining the file reads\<close>

text \<open>
  \<^verbatim>\<open>Array.from(files).map(...)\<close> makes one promise per file, in the order of the files;
  the \<open>i\<close>-th one resolves with the \<^verbatim>\<open>reader.result\<close> of the \<open>i\<close>-th file when that
  reader's \<^verbatim>\<open>onloadend\<close> fires. \<^verbatim>\<open>Promise.all\<close> keeps one slot per promise, stores a
  value in the slot of the promise that resolved, and resolves with the array of slots
  once none is empty. The readers run concurrently: the order in which they finish is
  the parameter \<open>loadend_order\<close>. \<^verbatim>\<open>readAsDataURL\<close> belongs to the browser and is a
  parameter.
\<close>

definition settle :: "('f \<Rightarrow> string) \<Rightarrow> 'f list \<Rightarrow> nat \<Rightarrow> string option list \<Rightarrow> string option list" where
  "settle readAsDataURL files i slots =
     (if i < length files \<and> i < length slots
      then (case slots ! i of
              None \<Rightarrow> slots[i := Some (readAsDataURL (files ! i))]
            | Some v \<Rightarrow> slots)
      else slots)"

definition Promise_all :: "('f \<Rightarrow> string) \<Rightarrow> 'f list \<Rightarrow> nat list \<Rightarrow> string list option" where
  "Promise_all readAsDataURL files loadend_order =
     (let slots = fold (settle readAsDataURL files) loadend_order
                    (replicate (length files) None)
      in if None \<in> set slots then None else Some (map the slots))"

subsection \<open>Executions\<close>

text \<open>
  What can happen to the component: the file input fires \<^verbatim>\<open>onChange\<close>, the reads of a
  pending submission finish in some order, an outstanding call settles, the back button
  or the language button is clicked. An execution is a list of such events.
\<close>

datatype 'f event =
    Upload "'f list"
  | FilesRead nat "nat list"
  | CallSettled nat response
  | Reset
  | ToggleLanguage

definition step ::
  "('f \<Rightarrow> string) \<Rightarrow> (string \<Rightarrow> json option) \<Rightarrow> 'f event \<Rightarrow> 'f App \<Rightarrow> 'f App" where
  "step readAsDataURL JSON_parse ev s = (case ev of
       Upload files \<Rightarrow> handleImageUpload files s
     | FilesRead k loadend_order \<Rightarrow>
         (if k < length (pendingReads s)
          then (case Promise_all readAsDataURL (snd (pendingReads s ! k)) loadend_order of
                  None \<Rightarrow> s
                | Some base64Images \<Rightarrow> onFilesRead k base64Images s)
          else s)
     | CallSettled k r \<Rightarrow> onCallSettled k (callGemini JSON_parse r) s
     | Reset \<Rightarrow> reset s
     | ToggleLanguage \<Rightarrow> setLang_onClick s)"

fun run ::
  "('f \<Rightarrow> string) \<Rightarrow> (string \<Rightarrow> json option) \<Rightarrow> 'f event list \<Rightarrow> 'f App \<Rightarrow> 'f App" where
  "run readAsDataURL JSON_parse [] s = s"
| "run readAsDataURL JSON_parse (ev # evs) s =
     run readAsDataURL JSON_parse evs (step readAsDataURL JSON_parse ev s)"

text \<open>
  An event is offered by the user interface when the control that causes it is on the
  screen (for the clicks and the file input), or when the read or call it completes is
  pending.
\<close>

definition offered :: "'f event \<Rightarrow> 'f App \<Rightarrow> bool" where
  "offered ev s = (case ev of
       Upload files \<Rightarrow> Upload_Button \<in> set (concat (map controls (render s)))
     | FilesRead k loadend_order \<Rightarrow> k < length (pendingReads s)
     | CallSettled k r \<Rightarrow> k < length (pendingCalls s)
     | Reset \<Rightarrow> Back_Button \<in> set (concat (map controls (render s)))
     | ToggleLanguage \<Rightarrow> Language_Button \<in> set (concat (map controls (render s))))"

fun feasible ::
  "('f \<Rightarrow> string) \<Rightarrow> (string \<Rightarrow> json option) \<Rightarrow> 'f event list \<Rightarrow> 'f App \<Rightarrow> bool" where
  "feasible readAsDataURL JSON_parse [] s = True"
| "feasible readAsDataURL JSON_parse (ev # evs) s =
     (offered ev s \<and> feasible readAsDataURL JSON_parse evs (step readAsDataURL JSON_parse ev s))"

text \<open>
  An execution submits one at a time when every file selection arrives while no read
  and no call of an earlier submission is pending. The handlers do not enforce this.
\<close>

definition quiescent :: "'f App \<Rightarrow> bool" where
  "quiescent s = (pendingReads s = [] \<and> pendingCalls s = [])"

fun one_at_a_time ::
  "('f \<Rightarrow> string) \<Rightarrow> (string \<Rightarrow> json option) \<Rightarrow> 'f event list \<Rightarrow> 'f App \<Rightarrow> bool" where
  "one_at_a_time readAsDataURL JSON_parse [] s = True"
| "one_at_a_time readAsDataURL JSON_parse (ev # evs) s =
     ((case ev of Upload files \<Rightarrow> quiescent s | _ \<Rightarrow> True) \<and>
      one_at_a_time readAsDataURL JSON_parse evs (step readAsDataURL JSON_parse ev s))"

section \<open>The single-image controller\<close>

text \<open>
  \<^verbatim>\<open>index.tsx\<close> holds the version of \<^verbatim>\<open>App\<close> that analyses one image: the state is
  \<^verbatim>\<open>lang\<close>, \<^verbatim>\<open>analyzing\<close>, \<^verbatim>\<open>image\<close> (\<^verbatim>\<open>string | null\<close>) and \<^verbatim>\<open>data\<close>. Its names
  carry the suffix \<open>_ix\<close> where they would clash with the ones above.
\<close>

definition translations_error_ix :: "Lang \<Rightarrow> string" where
  "translations_error_ix l = (case l of
     en \<Rightarrow> ''Could not analyze the image. Please try a clear photo of a plant.''
   | zh \<Rightarrow> translations_error zh)"

record 'f App_ix =
  lang_ix :: Lang
  analyzing :: bool
  image_ix :: "string option"
  data_ix :: json
  alerts_ix :: "string list"
  pendingReads_ix :: "(Lang \<times> 'f) list"
  pendingCalls_ix :: "(Lang \<times> string) list"

definition App_ix_init :: "'f App_ix" where
  "App_ix_init = \<lparr>lang_ix = zh, analyzing = False, image_ix = None, data_ix = JNull,
     alerts_ix = [], pendingReads_ix = [], pendingCalls_ix = []\<rparr>"

text \<open>
  \<^verbatim>\<open>handleImageUpload\<close>: \<^verbatim>\<open>const file = e.target.files?.[0]; if (!file) return;\<close> and
  the read of that file is started. No state is set before the read ends.
\<close>

definition handleImageUpload_ix :: "'f list \<Rightarrow> 'f App_ix \<Rightarrow> 'f App_ix" where
  "handleImageUpload_ix files s = (case files of
       [] \<Rightarrow> s
     | file # rest \<Rightarrow> s\<lparr>pendingReads_ix := pendingReads_ix s @ [(lang_ix s, file)]\<rparr>)"

text \<open>
  \<^verbatim>\<open>analyzePlant\<close> up to its \<^verbatim>\<open>await\<close>: \<^verbatim>\<open>setAnalyzing(true); setData(null)\<close> and the
  request is sent.
\<close>

definition analyzePlant :: "Lang \<Rightarrow> string \<Rightarrow> 'f App_ix \<Rightarrow> 'f App_ix" where
  "analyzePlant l base64Image s =
     s\<lparr>analyzing := True, data_ix := JNull,
       pendingCalls_ix := pendingCalls_ix s @ [(l, base64Image)]\<rparr>"

text \<open>\<^verbatim>\<open>reader.onloadend\<close>: \<^verbatim>\<open>setImage(result); analyzePlant(result)\<close>.\<close>

definition reader_onloadend :: "nat \<Rightarrow> string \<Rightarrow> 'f App_ix \<Rightarrow> 'f App_ix" where
  "reader_onloadend k result s =
     (if k < length (pendingReads_ix s)
      then analyzePlant (fst (pendingReads_ix s ! k)) result
             (s\<lparr>image_ix := Some result,
                pendingReads_ix := remove_nth k (pendingReads_ix s)\<rparr>)
      else s)"

text \<open>
  \<^verbatim>\<open>analyzePlant\<close> after its \<^verbatim>\<open>await\<close>: inside the \<^verbatim>\<open>try\<close>,
  \<^verbatim>\<open>if (jsonText) { setData(JSON.parse(jsonText)) }\<close>, which stores the parsed value
  whatever it is; the \<^verbatim>\<open>catch\<close> block alerts and does \<^verbatim>\<open>setImage(null)\<close>; the
  \<^verbatim>\<open>finally\<close> block does \<^verbatim>\<open>setAnalyzing(false)\<close>.
\<close>

definition analyzePlant_settled ::
  "(string \<Rightarrow> json option) \<Rightarrow> nat \<Rightarrow> response \<Rightarrow> 'f App_ix \<Rightarrow> 'f App_ix" where
  "analyzePlant_settled JSON_parse k r s =
     (if k < length (pendingCalls_ix s)
      then (let s1 = s\<lparr>pendingCalls_ix := remove_nth k (pendingCalls_ix s)\<rparr>;
                caught = s1\<lparr>alerts_ix := alerts_ix s1 @
                                [translations_error_ix (fst (pendingCalls_ix s ! k))],
                            image_ix := None\<rparr>;
                s2 = (case r of
                        Rejected \<Rightarrow> caught
                      | Resolved None \<Rightarrow> s1
                      | Resolved (Some jsonText) \<Rightarrow>
                          (if jsonText \<noteq> []
                           then (case JSON_parse jsonText of
                                   None \<Rightarrow> caught
                                 | Some parsedData \<Rightarrow> s1\<lparr>data_ix := parsedData\<rparr>)
                           else s1))
            in s2\<lparr>analyzing := False\<rparr>)
      else s)"

definition reset_ix :: "'f App_ix \<Rightarrow> 'f App_ix" where
  "reset_ix s = s\<lparr>image_ix := None, data_ix := JNull\<rparr>"

definition setLang_onClick_ix :: "'f App_ix \<Rightarrow> 'f App_ix" where
  "setLang_onClick_ix s = s\<lparr>lang_ix := (if lang_ix s = zh then en else zh)\<rparr>"

text \<open>
  The blocks stand under \<^verbatim>\<open>!image\<close>, \<^verbatim>\<open>image && analyzing\<close> and
  \<^verbatim>\<open>image && data && !analyzing\<close>; a string is truthy when it is not empty.
\<close>

definition truthy_image :: "string option \<Rightarrow> bool" where
  "truthy_image i = (case i of None \<Rightarrow> False | Some str \<Rightarrow> str \<noteq> [])"

definition render_ix :: "'f App_ix \<Rightarrow> screen list" where
  "render_ix s =
     (if \<not> truthy_image (image_ix s) then [Landing_State] else []) @
     (if truthy_image (image_ix s) \<and> analyzing s then [Processing_State] else []) @
     (if truthy_image (image_ix s) \<and> truthy (data_ix s) \<and> \<not> analyzing s
      then [result_block (data_ix s)] else [])"

datatype 'f event_ix =
    Upload_ix "'f list"
  | LoadEnd nat
  | CallSettled_ix nat response
  | Reset_ix
  | ToggleLanguage_ix

definition step_ix ::
  "('f \<Rightarrow> string) \<Rightarrow> (string \<Rightarrow> json option) \<Rightarrow> 'f event_ix \<Rightarrow> 'f App_ix \<Rightarrow> 'f App_ix" where
  "step_ix readAsDataURL JSON_parse ev s = (case ev of
       Upload_ix files \<Rightarrow> handleImageUpload_ix files s
     | LoadEnd k \<Rightarrow>
         (if k < length (pendingReads_ix s)
          then reader_onloadend k (readAsDataURL (snd (pendingReads_ix s ! k))) s
          else s)
     | CallSettled_ix k r \<Rightarrow> analyzePlant_settled JSON_parse k r s
     | Reset_ix \<Rightarrow> reset_ix s
     | ToggleLanguage_ix \<Rightarrow> setLang_onClick_ix s)"

fun run_ix ::
  "('f \<Rightarrow> string) \<Rightarrow> (string \<Rightarrow> json option) \<Rightarrow> 'f event_ix list \<Rightarrow> 'f App_ix \<Rightarrow> 'f App_ix" where
  "run_ix readAsDataURL JSON_parse [] s = s"
| "run_ix readAsDataURL JSON_parse (ev # evs) s =
     run_ix readAsDataURL JSON_parse evs (step_ix readAsDataURL JSON_parse ev s)"

section \<open>Example data\<close>

text \<open>
  A healthy plant with no treatment ingredients and a sick one with two, and a parser
  that knows four texts: one that stands for the JSON text of each plant, and the
  well-formed texts \<^verbatim>\<open>null\<close> and \<^verbatim>\<open>{}\<close>, which do not conform to the schema. Files
  are given by their base64 content.
\<close>

definition healthy_plant :: PlantData where
  "healthy_plant = \<lparr>name = ''Pothos'', scientificName = ''Epipremnum aureum'',
     healthStatus = Healthy, riskLevel = Low, symptoms = [], causes = [], urgency = Low,
     care = \<lparr>light = ''Indirect'', water = ''Weekly'', soil = ''Loam'', temp = ''18-27 C''\<rparr>,
     diagnosisSteps = [''Keep the routine''], treatmentIngredients = [],
     funFact = ''It roots in water.''\<rparr>"

definition sick_plant :: PlantData where
  "sick_plant = \<lparr>name = ''Rose'', scientificName = ''Rosa chinensis'',
     healthStatus = Sick, riskLevel = High, symptoms = [''Black spots''],
     causes = [''Fungal infection''], urgency = High,
     care = \<lparr>light = ''Full sun'', water = ''Twice a week'', soil = ''Loam'', temp = ''15-26 C''\<rparr>,
     diagnosisSteps = [''Remove the leaves'', ''Spray''],
     treatmentIngredients = [''Carbendazim'', ''Mancozeb''],
     funFact = ''Roses are old.''\<rparr>"

definition example_parse :: "string \<Rightarrow> json option" where
  "example_parse jsonText =
     (if jsonText = ''{healthy}'' then Some (PlantData_json healthy_plant)
      else if jsonText = ''{sick}'' then Some (PlantData_json sick_plant)
      else if jsonText = ''null'' then Some JNull
      else if jsonText = ''{}'' then Some (JObject [])
      else None)"

definition example_read :: "string \<Rightarrow> string" where
  "example_read file = ''data:image/png;base64,'' @ file"

definition example_processing_state :: "string App" where
  "example_processing_state =
     run example_read example_parse [Upload [''QUJD''], FilesRead 0 [0]] App_init"

definition example_result_state :: "string App" where
  "example_result_state =
     run example_read example_parse
       [Upload [''QUJD''], FilesRead 0 [0], CallSettled 0 (Resolved (Some ''{healthy}''))]
       App_init"

definition example_empty_state :: "string App" where
  "example_empty_state =
     run example_read example_parse
       [Upload [''QUJD''], FilesRead 0 [0], CallSettled 0 (Resolved (Some ''''))] App_init"

definition example_absent_state :: "string App" where
  "example_absent_state =
     run example_read example_parse
       [Upload [''QUJD''], FilesRead 0 [0], CallSettled 0 (Resolved None)] App_init"

definition example_null_state :: "string App" where
  "example_null_state =
     run example_read example_parse
       [Upload [''QUJD''], FilesRead 0 [0], CallSettled 0 (Resolved (Some ''null''))] App_init"

definition example_mismatch_state :: "string App" where
  "example_mismatch_state =
     run example_read example_parse
       [Upload [''QUJD''], FilesRead 0 [0], CallSettled 0 (Resolved (Some ''{}''))] App_init"

text \<open>
  Two submissions that overlap: the second file selection arrives while the landing
  block is still on the screen, before the reads of the first have been joined; the
  call of the first settles before the reads of the second are joined.
\<close>

definition overlapping_trace :: "string event list" where
  "overlapping_trace =
     [Upload [''QUJD''], Upload [''REVG''], FilesRead 0 [0],
      CallSettled 0 (Resolved (Some ''{healthy}'')), FilesRead 0 [0]]"

text \<open>
  Two overlapping submissions again: both reads are joined, the call of the first
  submission is rejected, then the call of the second resolves with a conforming text.
\<close>

definition failed_sibling_trace :: "string event list" where
  "failed_sibling_trace =
     [Upload [''QUJD''], Upload [''REVG''], FilesRead 0 [0], FilesRead 0 [0],
      CallSettled 0 Rejected, CallSettled 0 (Resolved (Some ''{healthy}''))]"

section \<open>Auxiliary predicates\<close>

text \<open>
  The slots of a join are in order when each holds nothing or the encoding of the file
  at its own index.
\<close>

definition slots_ok :: "('f \<Rightarrow> string) \<Rightarrow> 'f list \<Rightarrow> string option list \<Rightarrow> bool" where
  "slots_ok readAsDataURL files slots =
     (length slots = length files \<and>
      (\<forall>i \<in> set [0..<length files].
         slots ! i = None \<or> slots ! i = Some (readAsDataURL (files ! i))))"

text \<open>
  The invariant of the executions that submit one at a time: at most one read or call
  is pending, the processing flag is set while one is, and no result is stored while
  the flag is set.
\<close>

definition one_pending :: "'f App \<Rightarrow> bool" where
  "one_pending s =
     (length (pendingReads s) + length (pendingCalls s) \<le> 1 \<and>
      (\<not> quiescent s \<longrightarrow> isProcessing s) \<and>
      (isProcessing s \<longrightarrow> data s = JNull))"

text \<open>While a call is outstanding the processing block is on the screen.\<close>

definition calls_in_Processing :: "'f App \<Rightarrow> bool" where
  "calls_in_Processing s = (pendingCalls s \<noteq> [] \<longrightarrow> images s \<noteq> None \<and> isProcessing s)"

section \<open>Properties\<close>

subsection \<open>JSON values\<close>

lemma those_as_string: "those (map (\<lambda>x. as_string (JString x)) xs) = Some xs"
  by (induction xs) (simp_all add: as_string_def)

lemma as_strings_JArray [simp]: "as_strings (JArray (map JString xs)) = Some xs"
  by (simp add: as_strings_def those_as_string comp_def)

lemma as_HealthStatus_json [simp]: "as_HealthStatus (HealthStatus_json h) = Some h"
  by (cases h) (simp_all add: as_HealthStatus_def HealthStatus_json_def)

lemma as_Level_json [simp]: "as_Level (Level_json l) = Some l"
  by (cases l) (simp_all add: as_Level_def Level_json_def)

lemma as_Care_json [simp]: "as_Care (Care_json c) = Some c"
  by (simp add: as_Care_def Care_json_def get_member_def as_string_def)

text \<open>The value of a record conforms and is read back as that record.\<close>

lemma as_PlantData_json [simp]: "as_PlantData (PlantData_json d) = Some d"
  by (simp add: as_PlantData_def PlantData_json_def get_member_def as_string_def)

lemma as_PlantData_truthy: "as_PlantData v = Some d \<Longrightarrow> truthy v"
  by (cases v) (simp_all add: as_PlantData_def truthy_def)

lemma falsy_not_conforming: "\<not> truthy v \<Longrightarrow> as_PlantData v = None"
  by (cases "as_PlantData v") (auto dest: as_PlantData_truthy)

lemma truthy_PlantData_json [simp]: "truthy (PlantData_json d)"
  by (rule as_PlantData_truthy [OF as_PlantData_json])

lemma result_block_conforming:
  "as_PlantData v = Some d \<Longrightarrow> result_block v = Result_State (result_sections d)"
  by (simp add: result_block_def)

lemma result_block_Result_State:
  "result_block v = Result_State secs \<longleftrightarrow>
   (\<exists>d. as_PlantData v = Some d \<and> secs = result_sections d)"
  by (auto simp: result_block_def split: option.splits)

text \<open>The reads that throw for certain do not throw on a conforming value.\<close>

lemma as_strings_is_array: "Option.bind x as_strings = Some xs \<Longrightarrow> is_array x"
  by (cases x) (auto simp: as_strings_def is_array_def split: json.splits)

lemma as_strings_has_value: "Option.bind x as_strings = Some xs \<Longrightarrow> has_value x"
  by (cases x) (auto simp: as_strings_def has_value_def split: json.splits)

lemma as_strings_not_string:
  "Option.bind x as_strings = Some xs \<Longrightarrow>
   (case x of Some (JString str) \<Rightarrow> str = [] | _ \<Rightarrow> True)"
  by (cases x) (auto simp: as_strings_def split: json.splits)

lemma as_Care_has_value: "Option.bind x as_Care = Some c \<Longrightarrow> has_value x"
  by (cases x) (auto simp: as_Care_def has_value_def split: json.splits)

lemma conforming_reads_pass:
  assumes "as_PlantData v = Some d"
  shows "reads_pass v"
proof -
  from assms obtain kvs where v: "v = JObject kvs"
    by (cases v) (simp_all add: as_PlantData_def)
  from assms v obtain sy ca cr ds ti where
    "Option.bind (get_member kvs ''symptoms'') as_strings = Some sy"
    "Option.bind (get_member kvs ''causes'') as_strings = Some ca"
    "Option.bind (get_member kvs ''care'') as_Care = Some cr"
    "Option.bind (get_member kvs ''diagnosisSteps'') as_strings = Some ds"
    "Option.bind (get_member kvs ''treatmentIngredients'') as_strings = Some ti"
    by (auto simp: as_PlantData_def bind_eq_Some_conv)
  then show ?thesis
    using v
    by (simp add: reads_pass_def member_of_def as_strings_is_array as_strings_has_value
        as_strings_not_string as_Care_has_value)
qed

text \<open>The two well-formed texts of the examples that do not conform.\<close>

lemma nonconforming_examples:
  "as_PlantData JNull = None \<and> truthy JNull = False \<and>
   as_PlantData (JObject []) = None \<and> truthy (JObject []) \<and> reads_pass (JObject []) = False"
  by (simp add: as_PlantData_def truthy_def get_member_def reads_pass_def member_of_def
      is_array_def)

subsection \<open>Evaluation of the examples\<close>

lemmas handler_defs =
  step_def handleImageUpload_def onFilesRead_def startSimulationAndAnalysis_def
  onCallSettled_def callGemini_def reset_def setLang_onClick_def
  Promise_all_def settle_def remove_nth_def App_init_def

lemma example_processing_state_eq:
  "example_processing_state =
     \<lparr>lang = zh, isProcessing = True, images = Some [''data:image/png;base64,QUJD''],
      data = JNull, alerts = [], pendingReads = [],
      pendingCalls = [(zh, [''data:image/png;base64,QUJD''])]\<rparr>"
  by (simp add: example_processing_state_def handler_defs example_read_def)

lemma example_result_state_eq:
  "example_result_state =
     \<lparr>lang = zh, isProcessing = False, images = Some [''data:image/png;base64,QUJD''],
      data = PlantData_json healthy_plant, alerts = [], pendingReads = [],
      pendingCalls = []\<rparr>"
  by (simp add: example_result_state_def handler_defs example_read_def example_parse_def)

subsection \<open>The screen\<close>

lemma render_Landing: "images s = None \<Longrightarrow> render s = [Landing_State]"
  by (simp add: render_def)

lemma render_Processing:
  "images s \<noteq> None \<Longrightarrow> isProcessing s \<Longrightarrow> render s = [Processing_State]"
  by (simp add: render_def)

lemma render_Result:
  "images s \<noteq> None \<Longrightarrow> \<not> isProcessing s \<Longrightarrow> as_PlantData (data s) = Some d \<Longrightarrow>
   render s = [Result_State (result_sections d)]"
  by (simp add: render_def as_PlantData_truthy result_block_conforming)

lemma render_nothing:
  "images s \<noteq> None \<Longrightarrow> \<not> isProcessing s \<Longrightarrow> \<not> truthy (data s) \<Longrightarrow> render s = []"
  by (simp add: render_def)

lemma render_Result_iff:
  "(\<exists>secs. render s = [Result_State secs]) \<longleftrightarrow>
   (images s \<noteq> None \<and> \<not> isProcessing s \<and> as_PlantData (data s) \<noteq> None)"
  by (auto simp: render_def result_block_Result_State as_PlantData_truthy
      falsy_not_conforming split: if_splits)

lemma render_Processing_iff:
  "render s = [Processing_State] \<longleftrightarrow> (images s \<noteq> None \<and> isProcessing s)"
  by (auto simp: render_def result_block_def split: if_splits option.splits)

text \<open>At most one block is on the screen, and the conditions leave a state with none.\<close>

lemma render_at_most_one: "length (render s) \<le> 1"
  by (simp add: render_def)

subsection \<open>Reset and language\<close>

text \<open>
  C6. Calling \<^verbatim>\<open>reset\<close> in the Result state gives the Idle (landing) state, with the
  captured images and the analysis result both cleared to null.
\<close>

theorem reset_from_Result:
  "render s = [Result_State secs] \<Longrightarrow>
   render (reset s) = [Landing_State] \<and> images (reset s) = None \<and> data (reset s) = JNull"
  by (simp add: reset_def render_def)

theorem reset_from_Result_witness:
  "render example_result_state = [Result_State (result_sections healthy_plant)] \<and>
   render (reset example_result_state) = [Landing_State] \<and>
   images (reset example_result_state) = None \<and>
   data (reset example_result_state) = JNull"
proof -
  have h: "render example_result_state = [Result_State (result_sections healthy_plant)]"
    by (simp add: example_result_state_eq render_def result_block_def)
  show ?thesis using h reset_from_Result [OF h] by simp
qed

text \<open>
  C7. The language button, in any state, flips \<^verbatim>\<open>lang\<close> and leaves the captured
  images, the analysis result, the processing flag and hence the screen as they were.
\<close>

theorem setLang_onClick_frame:
  "lang (setLang_onClick s) = (case lang s of zh \<Rightarrow> en | en \<Rightarrow> zh) \<and>
   images (setLang_onClick s) = images s \<and>
   data (setLang_onClick s) = data s \<and>
   isProcessing (setLang_onClick s) = isProcessing s \<and>
   render (setLang_onClick s) = render s"
  by (simp add: setLang_onClick_def render_def split: Lang.splits)

lemma setLang_onClick_rest:
  "alerts (setLang_onClick s) = alerts s \<and>
   pendingReads (setLang_onClick s) = pendingReads s \<and>
   pendingCalls (setLang_onClick s) = pendingCalls s"
  by (simp add: setLang_onClick_def)

subsection \<open>The result screen\<close>

text \<open>
  C9. In the Result state the section of treatment ingredients is on the screen if and
  only if the list \<^verbatim>\<open>treatmentIngredients\<close> of the stored result is not empty; a healthy
  result with an empty list shows no such section.
\<close>

theorem treatment_section_iff:
  assumes "render s = [Result_State secs]"
  shows "\<exists>d. as_PlantData (data s) = Some d \<and>
           ((\<exists>ings. Compliance_Medication ings \<in> set secs) \<longleftrightarrow> treatmentIngredients d \<noteq> [])"
  using assms
  by (auto simp: render_def result_block_Result_State result_sections_def split: if_splits)

theorem treatment_section_iff_witness:
  "render example_result_state =
     [Result_State [Summary_Cards, Care_Environment_Grid, Diagnosis_Timeline]] \<and>
   (\<exists>d. as_PlantData (data example_result_state) = Some d \<and>
      ((\<exists>ings. Compliance_Medication ings \<in>
           set [Summary_Cards, Care_Environment_Grid, Diagnosis_Timeline]) \<longleftrightarrow>
       treatmentIngredients d \<noteq> []))"
proof -
  have h: "render example_result_state =
             [Result_State [Summary_Cards, Care_Environment_Grid, Diagnosis_Timeline]]"
    by (simp add: example_result_state_eq render_def result_block_def result_sections_def
        healthy_plant_def)
  show ?thesis using h treatment_section_iff [OF h] by simp
qed

lemma sick_plant_shows_treatment:
  "result_sections sick_plant =
     [Summary_Cards, Care_Environment_Grid, Diagnosis_Timeline,
      Compliance_Medication [''Carbendazim'', ''Mancozeb'']]"
  by (simp add: result_sections_def sick_plant_def)

subsection \<open>A call that fails\<close>

lemma callGemini_throws_iff:
  "callGemini JSON_parse r = Inl e \<longleftrightarrow>
   (r = Rejected \<and> e = ServiceError) \<or>
   (\<exists>jsonText. r = Resolved (Some jsonText) \<and> jsonText \<noteq> [] \<and>
       JSON_parse jsonText = None \<and> e = SyntaxError)"
  by (auto simp: callGemini_def split: response.splits option.splits)

text \<open>
  A response whose text is well-formed JSON but does not conform to the schema is not a
  failure for the code. On the text \<^verbatim>\<open>null\<close> nothing is thrown, nothing is alerted, the
  images stay and no block is on the screen; on \<^verbatim>\<open>{}\<close> the call throws nothing and
  nothing is alerted either, the empty object is stored, the result block is the one
  chosen and its read \<^verbatim>\<open>data.symptoms.map\<close> throws.
\<close>

theorem schema_mismatch_is_not_a_failure:
  "example_parse ''null'' = Some JNull \<and> as_PlantData JNull = None \<and>
   callGemini example_parse (Resolved (Some ''null'')) = Inr JNull \<and>
   alerts example_null_state = [] \<and>
   images example_null_state = Some [''data:image/png;base64,QUJD''] \<and>
   render example_null_state = [] \<and>
   example_parse ''{}'' = Some (JObject []) \<and> as_PlantData (JObject []) = None \<and>
   callGemini example_parse (Resolved (Some ''{}'')) = Inr (JObject []) \<and>
   alerts example_mismatch_state = [] \<and>
   data example_mismatch_state = JObject [] \<and>
   images example_mismatch_state = Some [''data:image/png;base64,QUJD''] \<and>
   render example_mismatch_state = [Result_TypeError]"
  by (simp add: example_null_state_def example_mismatch_state_def handler_defs
      example_read_def example_parse_def render_def result_block_def truthy_def
      as_PlantData_def get_member_def reads_pass_def member_of_def is_array_def)

text \<open>
  C2, as the code has it. When an outstanding call fails because \<^verbatim>\<open>callGemini\<close> throws
  (the request is rejected, or \<^verbatim>\<open>JSON.parse\<close> throws on the text), the handler appends
  exactly one notification, the error text in the language of the submission, discards
  the captured images and clears the processing flag: the landing (Idle) block is the
  one on the screen, not the result block.
\<close>

theorem failed_call_returns_to_Idle:
  assumes "k < length (pendingCalls s)" and "callGemini JSON_parse r = Inl e"
  shows "alerts (onCallSettled k (callGemini JSON_parse r) s) =
           alerts s @ [translations_error (fst (pendingCalls s ! k))] \<and>
         images (onCallSettled k (callGemini JSON_parse r) s) = None \<and>
         \<not> isProcessing (onCallSettled k (callGemini JSON_parse r) s) \<and>
         data (onCallSettled k (callGemini JSON_parse r) s) = data s \<and>
         render (onCallSettled k (callGemini JSON_parse r) s) = [Landing_State]"
  using assms by (simp add: onCallSettled_def render_def Let_def)

theorem failed_call_returns_to_Idle_witness:
  "0 < length (pendingCalls example_processing_state) \<and>
   callGemini example_parse Rejected = Inl ServiceError \<and>
   alerts (onCallSettled 0 (callGemini example_parse Rejected) example_processing_state) =
     [translations_error zh] \<and>
   images (onCallSettled 0 (callGemini example_parse Rejected) example_processing_state) = None \<and>
   data (onCallSettled 0 (callGemini example_parse Rejected) example_processing_state) = JNull \<and>
   render (onCallSettled 0 (callGemini example_parse Rejected) example_processing_state) =
     [Landing_State]"
proof -
  have h1: "0 < length (pendingCalls example_processing_state)"
    by (simp add: example_processing_state_eq)
  have h2: "callGemini example_parse Rejected = Inl ServiceError"
    by (simp add: callGemini_def)
  show ?thesis
    using h1 h2 failed_call_returns_to_Idle [OF h1 h2]
    by (simp add: example_processing_state_eq)
qed

subsection \<open>The join of the file reads\<close>

lemma slots_ok_iff:
  "slots_ok rd files slots \<longleftrightarrow>
     length slots = length files \<and>
     (\<forall>i<length files. slots ! i = None \<or> slots ! i = Some (rd (files ! i)))"
  by (auto simp: slots_ok_def)

lemma slots_ok_replicate: "slots_ok rd files (replicate (length files) None)"
  by (simp add: slots_ok_iff)

lemma slots_ok_settle: "slots_ok rd files slots \<Longrightarrow> slots_ok rd files (settle rd files i slots)"
  by (auto simp: slots_ok_iff settle_def nth_list_update split: option.splits)

lemma slots_ok_fold:
  "slots_ok rd files slots \<Longrightarrow> slots_ok rd files (fold (settle rd files) order slots)"
  by (induction order arbitrary: slots) (simp_all add: slots_ok_settle)

lemma slots_ok_full:
  assumes "slots_ok rd files slots" and "None \<notin> set slots"
  shows "map the slots = map rd files"
proof (rule nth_equalityI)
  show "length (map the slots) = length (map rd files)"
    using assms(1) by (simp add: slots_ok_iff)
next
  fix i assume "i < length (map the slots)"
  then have i: "i < length files" using assms(1) by (simp add: slots_ok_iff)
  then have "slots ! i \<in> set slots" using assms(1) by (simp add: slots_ok_iff)
  with assms(2) have "slots ! i \<noteq> None" by metis
  with assms(1) i have "slots ! i = Some (rd (files ! i))" by (auto simp: slots_ok_iff)
  with i assms(1) show "map the slots ! i = map rd files ! i" by (simp add: slots_ok_iff)
qed

lemma Promise_all_Some:
  "Promise_all rd files order = Some bufs \<Longrightarrow> bufs = map rd files"
  using slots_ok_full [OF slots_ok_fold [OF slots_ok_replicate], of rd files order]
  by (auto simp: Promise_all_def Let_def split: if_splits)

lemma settle_keeps_Some:
  "j < length slots \<Longrightarrow> slots ! j \<noteq> None \<Longrightarrow> settle rd files i slots ! j \<noteq> None"
  by (auto simp: settle_def nth_list_update split: option.splits)

lemma settle_length: "length (settle rd files i slots) = length slots"
  by (simp add: settle_def split: option.splits)

lemma fold_settle_length: "length (fold (settle rd files) order slots) = length slots"
  by (induction order arbitrary: slots) (simp_all add: settle_length)

lemma fold_settle_keeps_Some:
  "j < length slots \<Longrightarrow> slots ! j \<noteq> None \<Longrightarrow> fold (settle rd files) order slots ! j \<noteq> None"
proof (induction order arbitrary: slots)
  case Nil
  then show ?case by simp
next
  case (Cons i order)
  have "j < length (settle rd files i slots)"
    using Cons.prems(1) by (simp only: settle_length)
  moreover have "settle rd files i slots ! j \<noteq> None"
    using Cons.prems by (rule settle_keeps_Some)
  ultimately have "fold (settle rd files) order (settle rd files i slots) ! j \<noteq> None"
    by (rule Cons.IH)
  then show ?case by simp
qed

lemma settle_fills:
  "i < length files \<Longrightarrow> length slots = length files \<Longrightarrow> settle rd files i slots ! i \<noteq> None"
  by (auto simp: settle_def split: option.splits)

lemma fold_settle_fills:
  "j \<in> set order \<Longrightarrow> j < length files \<Longrightarrow> length slots = length files \<Longrightarrow>
   fold (settle rd files) order slots ! j \<noteq> None"
proof (induction order arbitrary: slots)
  case Nil
  then show ?case by simp
next
  case (Cons i order)
  show ?case
  proof (cases "j = i")
    case True
    with Cons.prems show ?thesis
      by (simp add: fold_settle_keeps_Some settle_fills settle_length)
  next
    case False
    with Cons show ?thesis by (simp add: settle_length)
  qed
qed

text \<open>Once every reader has finished, in whatever order, the join resolves.\<close>

lemma Promise_all_joins:
  assumes "{..<length files} \<subseteq> set order"
  shows "Promise_all rd files order = Some (map rd files)"
proof -
  let ?sl = "fold (settle rd files) order (replicate (length files) None)"
  have len: "length ?sl = length files" by (simp add: fold_settle_length)
  have "None \<notin> set ?sl"
  proof
    assume "None \<in> set ?sl"
    then obtain j where j: "j < length ?sl" "?sl ! j = None" by (auto simp: in_set_conv_nth)
    with len assms have "j \<in> set order" "j < length files" by auto
    then have "?sl ! j \<noteq> None" by (simp add: fold_settle_fills)
    with j show False by simp
  qed
  then obtain bufs where "Promise_all rd files order = Some bufs"
    by (simp add: Promise_all_def Let_def)
  then show ?thesis using Promise_all_Some by metis
qed

text \<open>
  C8. Whatever the order in which the concurrent readers finish, the array that the
  join hands to the submission has the length of the file list, and its \<open>i\<close>-th buffer
  is the encoding of the \<open>i\<close>-th file.
\<close>

theorem buffers_keep_file_order:
  assumes "Promise_all readAsDataURL files loadend_order = Some base64Images"
  shows "length base64Images = length files \<and>
         (\<forall>i<length files. base64Images ! i = readAsDataURL (files ! i))"
  using Promise_all_Some [OF assms] by simp

theorem buffers_keep_file_order_witness:
  "Promise_all example_read [''QUJD'', ''REVG'', ''R0hJ''] [2, 0, 1] =
     Some [''data:image/png;base64,QUJD'', ''data:image/png;base64,REVG'',
           ''data:image/png;base64,R0hJ''] \<and>
   length [''data:image/png;base64,QUJD'', ''data:image/png;base64,REVG'',
           ''data:image/png;base64,R0hJ''] = length [''QUJD'', ''REVG'', ''R0hJ''] \<and>
   [''data:image/png;base64,QUJD'', ''data:image/png;base64,REVG'',
    ''data:image/png;base64,R0hJ''] ! 0 = example_read ([''QUJD'', ''REVG'', ''R0hJ''] ! 0) \<and>
   [''data:image/png;base64,QUJD'', ''data:image/png;base64,REVG'',
    ''data:image/png;base64,R0hJ''] ! 1 = example_read ([''QUJD'', ''REVG'', ''R0hJ''] ! 1) \<and>
   [''data:image/png;base64,QUJD'', ''data:image/png;base64,REVG'',
    ''data:image/png;base64,R0hJ''] ! 2 = example_read ([''QUJD'', ''REVG'', ''R0hJ''] ! 2)"
proof -
  have h: "Promise_all example_read [''QUJD'', ''REVG'', ''R0hJ''] [2, 0, 1] =
     Some [''data:image/png;base64,QUJD'', ''data:image/png;base64,REVG'',
           ''data:image/png;base64,R0hJ'']"
    by (simp add: Promise_all_def settle_def example_read_def)
  have "(0::nat) < length [''QUJD'', ''REVG'', ''R0hJ'']"
    and "(1::nat) < length [''QUJD'', ''REVG'', ''R0hJ'']"
    and "(2::nat) < length [''QUJD'', ''REVG'', ''R0hJ'']"
    by simp_all
  then show ?thesis using h buffers_keep_file_order [OF h] by blast
qed

subsection \<open>Executions\<close>

lemma run_append: "run rd p (evs @ evs') s = run rd p evs' (run rd p evs s)"
  by (induction evs arbitrary: s) simp_all

lemma run_snoc: "run rd p (evs @ [ev]) s = step rd p ev (run rd p evs s)"
  by (simp add: run_append)

lemma step_Upload_FilesRead:
  assumes "files \<noteq> []" and "{..<length files} \<subseteq> set order"
  shows "run rd p [Upload files, FilesRead (length (pendingReads s)) order] s =
           s\<lparr>data := JNull, images := Some (map rd files), isProcessing := True,
             pendingCalls := pendingCalls s @ [(lang s, map rd files)]\<rparr>"
  using assms
  by (simp add: step_def handleImageUpload_def onFilesRead_def startSimulationAndAnalysis_def
      Promise_all_joins remove_nth_def)

lemma length_remove_nth: "k < length xs \<Longrightarrow> length (remove_nth k xs) = length xs - 1"
  by (simp add: remove_nth_def)

lemma remove_nth_single: "length xs \<le> 1 \<Longrightarrow> k < length xs \<Longrightarrow> remove_nth k xs = []"
  by (cases xs) (simp_all add: remove_nth_def)

subsection \<open>Executions that submit one at a time\<close>

lemma one_pending_init: "one_pending App_init"
  by (simp add: one_pending_def App_init_def quiescent_def)

lemma one_pending_Upload:
  "one_pending s \<Longrightarrow> quiescent s \<Longrightarrow> one_pending (handleImageUpload files s)"
  by (simp add: one_pending_def quiescent_def handleImageUpload_def)

lemma one_pending_onFilesRead:
  assumes inv: "one_pending s"
  shows "one_pending (onFilesRead k imgs s)"
proof (cases "k < length (pendingReads s)")
  case False
  with inv show ?thesis by (simp add: onFilesRead_def)
next
  case True
  then have "pendingReads s \<noteq> []" by auto
  with inv have none: "data s = JNull"
    by (simp add: one_pending_def quiescent_def)
  have "length (pendingReads s) + length (pendingCalls s) \<le> 1"
    using inv by (simp add: one_pending_def)
  with True have "length (pendingReads s) \<le> 1" and "length (pendingCalls s) = 0"
    by linarith+
  then have "length (pendingReads s) \<le> 1" and calls: "pendingCalls s = []"
    by simp_all
  with True have "remove_nth k (pendingReads s) = []"
    by (simp add: remove_nth_single)
  with True none calls show ?thesis
    by (simp add: one_pending_def quiescent_def onFilesRead_def startSimulationAndAnalysis_def)
qed

lemma one_pending_onCallSettled:
  assumes inv: "one_pending s"
  shows "one_pending (onCallSettled k outcome s)"
proof (cases "k < length (pendingCalls s)")
  case False
  with inv show ?thesis by (simp add: onCallSettled_def)
next
  case True
  have "length (pendingReads s) + length (pendingCalls s) \<le> 1"
    using inv by (simp add: one_pending_def)
  with True have "length (pendingCalls s) \<le> 1" and "length (pendingReads s) = 0"
    by linarith+
  then have "length (pendingCalls s) \<le> 1" and reads: "pendingReads s = []"
    by simp_all
  with True have "remove_nth k (pendingCalls s) = []"
    by (simp add: remove_nth_single)
  with True reads show ?thesis
    by (simp add: one_pending_def quiescent_def onCallSettled_def Let_def split: sum.splits)
qed

lemma one_pending_reset: "one_pending s \<Longrightarrow> one_pending (reset s)"
  by (simp add: one_pending_def quiescent_def reset_def)

lemma one_pending_setLang: "one_pending s \<Longrightarrow> one_pending (setLang_onClick s)"
  by (simp add: one_pending_def quiescent_def setLang_onClick_def)

lemma one_pending_step:
  assumes "one_pending s" and "case ev of Upload files \<Rightarrow> quiescent s | _ \<Rightarrow> True"
  shows "one_pending (step rd p ev s)"
proof (cases ev)
  case (Upload files)
  with assms show ?thesis by (simp add: step_def one_pending_Upload)
next
  case (FilesRead k order)
  with assms(1) show ?thesis
    by (simp add: step_def one_pending_onFilesRead split: option.splits)
next
  case (CallSettled k r)
  with assms(1) show ?thesis by (simp add: step_def one_pending_onCallSettled)
next
  case Reset
  with assms(1) show ?thesis by (simp add: step_def one_pending_reset)
next
  case ToggleLanguage
  with assms(1) show ?thesis by (simp add: step_def one_pending_setLang)
qed

lemma one_pending_run:
  "one_pending s \<Longrightarrow> one_at_a_time rd p evs s \<Longrightarrow> one_pending (run rd p evs s)"
proof (induction evs arbitrary: s)
  case Nil
  then show ?case by simp
next
  case (Cons ev evs)
  from Cons.prems have "one_pending (step rd p ev s)"
    by (simp add: one_pending_step)
  moreover from Cons.prems have "one_at_a_time rd p evs (step rd p ev s)" by simp
  ultimately show ?case using Cons.IH by simp
qed

text \<open>
  When, besides, every event is one the user interface offers, the processing block is
  on the screen for as long as a call is outstanding.
\<close>

lemma Back_Button_offered:
  "Back_Button \<in> set (concat (map controls (render s))) \<Longrightarrow> \<not> isProcessing s"
  by (auto simp: render_def result_block_def split: if_splits option.splits)

lemma calls_in_Processing_step:
  assumes inv: "one_pending s" and cip: "calls_in_Processing s" and off: "offered ev s"
    and seq: "case ev of Upload files \<Rightarrow> quiescent s | _ \<Rightarrow> True"
  shows "calls_in_Processing (step rd p ev s)"
proof (cases ev)
  case (Upload files)
  with seq have "pendingCalls s = []" by (simp add: quiescent_def)
  with Upload show ?thesis
    by (simp add: step_def handleImageUpload_def calls_in_Processing_def)
next
  case (FilesRead k order)
  with cip show ?thesis
    by (simp add: step_def onFilesRead_def startSimulationAndAnalysis_def
        calls_in_Processing_def split: option.splits)
next
  case (CallSettled k r)
  with off have k: "k < length (pendingCalls s)" by (simp add: offered_def)
  have "length (pendingReads s) + length (pendingCalls s) \<le> 1"
    using inv by (simp add: one_pending_def)
  then have "length (pendingCalls s) \<le> 1" by linarith
  with k have "remove_nth k (pendingCalls s) = []" by (simp add: remove_nth_single)
  with k CallSettled show ?thesis
    by (simp add: step_def onCallSettled_def Let_def calls_in_Processing_def split: sum.splits)
next
  case Reset
  with off have "\<not> isProcessing s" by (simp add: offered_def Back_Button_offered)
  with inv have "quiescent s" by (auto simp: one_pending_def)
  with Reset show ?thesis
    by (simp add: step_def reset_def calls_in_Processing_def quiescent_def)
next
  case ToggleLanguage
  with cip show ?thesis by (simp add: step_def setLang_onClick_def calls_in_Processing_def)
qed

lemma calls_in_Processing_run:
  "one_pending s \<Longrightarrow> calls_in_Processing s \<Longrightarrow>
   feasible rd p evs s \<Longrightarrow> one_at_a_time rd p evs s \<Longrightarrow>
   calls_in_Processing (run rd p evs s)"
proof (induction evs arbitrary: s)
  case Nil
  then show ?case by simp
next
  case (Cons ev evs)
  from Cons.prems have "one_pending (step rd p ev s)"
    by (simp add: one_pending_step)
  moreover from Cons.prems have "calls_in_Processing (step rd p ev s)"
    by (simp add: calls_in_Processing_step)
  moreover from Cons.prems have "feasible rd p evs (step rd p ev s)"
    and "one_at_a_time rd p evs (step rd p ev s)" by simp_all
  ultimately show ?case using Cons.IH by simp
qed

lemma outstanding_call_in_Processing:
  assumes "feasible rd p evs App_init" and "one_at_a_time rd p evs App_init"
    and "k < length (pendingCalls (run rd p evs App_init))"
  shows "render (run rd p evs App_init) = [Processing_State]"
proof -
  have "calls_in_Processing (App_init :: 'a App)"
    by (simp add: calls_in_Processing_def App_init_def)
  from calls_in_Processing_run [OF one_pending_init this assms(1,2)] assms(3)
  show ?thesis by (auto simp: calls_in_Processing_def render_Processing)
qed

subsection \<open>A call that succeeds\<close>

text \<open>
  With two overlapping submissions, each made while the landing block offers the upload
  button, the call of the first is rejected and puts the controller back to the landing
  block; the call of the second then succeeds with a conforming text: its value is
  stored, but the landing block stays on the screen.
\<close>

theorem success_after_failed_sibling:
  "feasible example_read example_parse failed_sibling_trace App_init \<and>
   render (run example_read example_parse failed_sibling_trace App_init) = [Landing_State] \<and>
   data (run example_read example_parse failed_sibling_trace App_init) =
     PlantData_json healthy_plant \<and>
   images (run example_read example_parse failed_sibling_trace App_init) = None"
  by (simp add: failed_sibling_trace_def handler_defs example_read_def example_parse_def
      offered_def render_def)

text \<open>
  C3, as the code has it. A call that resolves with a non-empty text that \<^verbatim>\<open>JSON.parse\<close>
  turns into a value conforming to \<^verbatim>\<open>PlantData\<close> stores exactly that value, keeps the
  images and alerts nothing, in every state. The result block is the one on the screen
  afterwards when the call resolves in the Processing state; that is so for a whole
  submission run without interruption (selection, join of the reads, the response) from
  any state, and for every outstanding call of an execution that submits one at a time
  through the controls on the screen.
\<close>

theorem successful_call_reaches_Result:
  assumes "jsonText \<noteq> []" and "JSON_parse jsonText = Some v" and "as_PlantData v = Some d"
  shows "(k < length (pendingCalls s) \<longrightarrow>
            data (onCallSettled k (callGemini JSON_parse (Resolved (Some jsonText))) s) = v \<and>
            images (onCallSettled k (callGemini JSON_parse (Resolved (Some jsonText))) s) = images s \<and>
            alerts (onCallSettled k (callGemini JSON_parse (Resolved (Some jsonText))) s) = alerts s) \<and>
         (k < length (pendingCalls s) \<and> render s = [Processing_State] \<longrightarrow>
            render (onCallSettled k (callGemini JSON_parse (Resolved (Some jsonText))) s) =
              [Result_State (result_sections d)]) \<and>
         (files \<noteq> [] \<and> {..<length files} \<subseteq> set loadend_order \<longrightarrow>
            render (run readAsDataURL JSON_parse
              [Upload files, FilesRead (length (pendingReads s)) loadend_order,
               CallSettled (length (pendingCalls s)) (Resolved (Some jsonText))] s) =
              [Result_State (result_sections d)] \<and>
            data (run readAsDataURL JSON_parse
              [Upload files, FilesRead (length (pendingReads s)) loadend_order,
               CallSettled (length (pendingCalls s)) (Resolved (Some jsonText))] s) = v) \<and>
         (feasible readAsDataURL JSON_parse evs App_init \<and>
          one_at_a_time readAsDataURL JSON_parse evs App_init \<and>
          k < length (pendingCalls (run readAsDataURL JSON_parse evs App_init)) \<longrightarrow>
            render (run readAsDataURL JSON_parse
              (evs @ [CallSettled k (Resolved (Some jsonText))]) App_init) =
              [Result_State (result_sections d)] \<and>
            data (run readAsDataURL JSON_parse
              (evs @ [CallSettled k (Resolved (Some jsonText))]) App_init) = v)"
proof -
  have tr: "truthy v" using assms(3) by (rule as_PlantData_truthy)
  have rb: "result_block v = Result_State (result_sections d)"
    using assms(3) by (rule result_block_conforming)
  have settle_data: "data (onCallSettled k (callGemini JSON_parse (Resolved (Some jsonText))) s') = v"
    and settle_images: "images (onCallSettled k (callGemini JSON_parse (Resolved (Some jsonText))) s') = images s'"
    and settle_alerts: "alerts (onCallSettled k (callGemini JSON_parse (Resolved (Some jsonText))) s') = alerts s'"
    if "k < length (pendingCalls s')" for s' :: "'a App"
    using that assms(1,2) tr by (simp_all add: onCallSettled_def callGemini_def Let_def)
  have settle_render: "render (onCallSettled k (callGemini JSON_parse (Resolved (Some jsonText))) s') =
      [Result_State (result_sections d)]"
    if "k < length (pendingCalls s')" and "render s' = [Processing_State]" for s' :: "'a App"
  proof -
    from that(2) have "images s' \<noteq> None" by (simp add: render_Processing_iff)
    with that(1) assms(1,2) tr rb show ?thesis
      by (simp add: onCallSettled_def callGemini_def Let_def render_def)
  qed
  have flow: "render (run readAsDataURL JSON_parse
              [Upload files, FilesRead (length (pendingReads s)) loadend_order,
               CallSettled (length (pendingCalls s)) (Resolved (Some jsonText))] s) =
              [Result_State (result_sections d)] \<and>
            data (run readAsDataURL JSON_parse
              [Upload files, FilesRead (length (pendingReads s)) loadend_order,
               CallSettled (length (pendingCalls s)) (Resolved (Some jsonText))] s) = v"
    if "files \<noteq> []" and "{..<length files} \<subseteq> set loadend_order"
    using that assms(1,2) tr rb
    by (simp add: step_def handleImageUpload_def onFilesRead_def
        startSimulationAndAnalysis_def Promise_all_joins remove_nth_def onCallSettled_def
        callGemini_def render_def Let_def)
  have exec: "render (run readAsDataURL JSON_parse
              (evs @ [CallSettled k (Resolved (Some jsonText))]) App_init) =
              [Result_State (result_sections d)] \<and>
            data (run readAsDataURL JSON_parse
              (evs @ [CallSettled k (Resolved (Some jsonText))]) App_init) = v"
    if "feasible readAsDataURL JSON_parse evs App_init"
      and "one_at_a_time readAsDataURL JSON_parse evs App_init"
      and "k < length (pendingCalls (run readAsDataURL JSON_parse evs App_init))"
  proof -
    have "render (run readAsDataURL JSON_parse evs App_init) = [Processing_State]"
      using that by (rule outstanding_call_in_Processing)
    with that(3) show ?thesis
      by (simp add: run_snoc step_def settle_render settle_data)
  qed
  show ?thesis
    using settle_data [of s] settle_images [of s] settle_alerts [of s] settle_render [of s]
      flow exec
    by blast
qed

theorem successful_call_reaches_Result_witness:
  "''{sick}'' \<noteq> [] \<and> example_parse ''{sick}'' = Some (PlantData_json sick_plant) \<and>
   as_PlantData (PlantData_json sick_plant) = Some sick_plant \<and>
   0 < length (pendingCalls example_processing_state) \<and>
   render example_processing_state = [Processing_State] \<and>
   render (onCallSettled 0 (callGemini example_parse (Resolved (Some ''{sick}'')))
     example_processing_state) = [Result_State (result_sections sick_plant)] \<and>
   data (onCallSettled 0 (callGemini example_parse (Resolved (Some ''{sick}'')))
     example_processing_state) = PlantData_json sick_plant \<and>
   [''QUJD''] \<noteq> [] \<and> {..<length [''QUJD'']} \<subseteq> set [0::nat] \<and>
   render (run example_read example_parse
     [Upload [''QUJD''], FilesRead (length (pendingReads (App_init :: string App))) [0],
      CallSettled (length (pendingCalls (App_init :: string App))) (Resolved (Some ''{sick}''))]
     App_init) = [Result_State (result_sections sick_plant)] \<and>
   feasible example_read example_parse [Upload [''QUJD''], FilesRead 0 [0]] App_init \<and>
   one_at_a_time example_read example_parse [Upload [''QUJD''], FilesRead 0 [0]] App_init \<and>
   render (run example_read example_parse
     ([Upload [''QUJD''], FilesRead 0 [0]] @ [CallSettled 0 (Resolved (Some ''{sick}''))])
     App_init) = [Result_State (result_sections sick_plant)]"
proof -
  have h1: "''{sick}'' \<noteq> []" by simp
  have h2: "example_parse ''{sick}'' = Some (PlantData_json sick_plant)"
    by (simp add: example_parse_def)
  have h3: "as_PlantData (PlantData_json sick_plant) = Some sick_plant" by simp
  have h4: "0 < length (pendingCalls example_processing_state)"
    by (simp add: example_processing_state_eq)
  have h5: "render example_processing_state = [Processing_State]"
    by (simp add: example_processing_state_eq render_def)
  have h6: "[''QUJD''] \<noteq> []" by simp
  have h7: "{..<length [''QUJD'']} \<subseteq> set [0::nat]" by auto
  have h8: "feasible example_read example_parse [Upload [''QUJD''], FilesRead 0 [0]]
              (App_init :: string App)"
    by (simp add: handler_defs offered_def render_def)
  have h9: "one_at_a_time example_read example_parse [Upload [''QUJD''], FilesRead 0 [0]]
              (App_init :: string App)"
    by (simp add: handler_defs quiescent_def)
  have h10: "0 < length (pendingCalls (run example_read example_parse
               [Upload [''QUJD''], FilesRead 0 [0]] (App_init :: string App)))"
    by (simp add: handler_defs)
  show ?thesis
    using h1 h2 h3 h4 h5 h6 h7 h8 h9 h10
      successful_call_reaches_Result [where jsonText = "''{sick}''" and JSON_parse = example_parse
        and v = "PlantData_json sick_plant" and d = sick_plant and k = 0
        and s = example_processing_state, OF h1 h2 h3]
      successful_call_reaches_Result [where jsonText = "''{sick}''" and JSON_parse = example_parse
        and v = "PlantData_json sick_plant" and d = sick_plant and k = 0
        and s = "App_init :: string App" and files = "[''QUJD'']"
        and loadend_order = "[0]" and readAsDataURL = example_read
        and evs = "[Upload [''QUJD''], FilesRead 0 [0]]", OF h1 h2 h3]
    by simp
qed

subsection \<open>An empty response\<close>

text \<open>
  C1. A response whose text is malformed makes \<^verbatim>\<open>JSON.parse\<close> throw and is handled as
  a failure (\<open>malformed_response_throws\<close> with C2). A response whose text is empty or
  absent is not: \<^verbatim>\<open>callGemini\<close> returns null, the \<^verbatim>\<open>catch\<close> block does not run, and
  \<^verbatim>\<open>if (result)\<close> skips \<^verbatim>\<open>setData\<close>. For one image and the empty text the component
  ends with the images kept, no result, the processing flag cleared and no
  notification: none of the three blocks is rendered and no control is offered. The
  absent text ends in the same state.
\<close>

theorem empty_response_renders_nothing:
  "render example_empty_state = [] \<and>
   alerts example_empty_state = [] \<and>
   images example_empty_state = Some [''data:image/png;base64,QUJD''] \<and>
   data example_empty_state = JNull \<and>
   isProcessing example_empty_state = False \<and>
   concat (map controls (render example_empty_state)) = [] \<and>
   example_absent_state = example_empty_state"
  by (simp add: example_empty_state_def example_absent_state_def handler_defs
      example_read_def render_def truthy_def)

lemma empty_response_general:
  assumes "k < length (pendingCalls s)" and "r = Resolved None \<or> r = Resolved (Some [])"
  shows "onCallSettled k (callGemini JSON_parse r) s =
           s\<lparr>pendingCalls := remove_nth k (pendingCalls s), isProcessing := False\<rparr>"
  using assms by (auto simp: onCallSettled_def callGemini_def Let_def truthy_def)

lemma empty_response_from_Processing:
  assumes "k < length (pendingCalls s)" and "r = Resolved None \<or> r = Resolved (Some [])"
    and "render s = [Processing_State]" and "data s = JNull"
  shows "render (onCallSettled k (callGemini JSON_parse r) s) = [] \<and>
         alerts (onCallSettled k (callGemini JSON_parse r) s) = alerts s \<and>
         images (onCallSettled k (callGemini JSON_parse r) s) = images s"
  using assms(3,4) unfolding empty_response_general [OF assms(1,2)]
  by (auto simp: render_def truthy_def split: if_splits)

lemma malformed_response_throws:
  "jsonText \<noteq> [] \<Longrightarrow> JSON_parse jsonText = None \<Longrightarrow>
   callGemini JSON_parse (Resolved (Some jsonText)) = Inl SyntaxError"
  by (simp add: callGemini_def)

lemma nothing_rendered_offers_nothing:
  "render s = [] \<Longrightarrow>
   \<not> offered (Upload files) s \<and> \<not> offered Reset s \<and> \<not> offered ToggleLanguage s"
  by (simp add: offered_def)

lemma example_empty_state_offers_nothing: "\<not> offered ev example_empty_state"
  by (cases ev)
    (simp_all add: offered_def example_empty_state_def handler_defs example_read_def
      render_def truthy_def)

subsection \<open>A second submission\<close>

text \<open>
  In the Processing state a file selection is not a no-op, and after the join of its
  reads two calls are outstanding.
\<close>

theorem second_upload_while_processing:
  "render example_processing_state = [Processing_State] \<and>
   handleImageUpload [''REVG''] example_processing_state \<noteq> example_processing_state \<and>
   length (pendingCalls (run example_read example_parse
      [Upload [''REVG''], FilesRead 0 [0]] example_processing_state)) = 2"
  by (simp add: example_processing_state_eq handler_defs example_read_def render_def)

text \<open>
  C4, as the code has it. \<^verbatim>\<open>handleImageUpload\<close> does not look at the processing flag:
  in every state, Processing included, a selection of at least one file is accepted and
  the join of its reads starts one more call, next to the ones already outstanding.
  Only the empty selection is a no-op.
\<close>

theorem upload_accepted_in_every_phase:
  assumes "files \<noteq> []" and "{..<length files} \<subseteq> set loadend_order"
  shows "pendingCalls (run readAsDataURL JSON_parse
           [Upload files, FilesRead (length (pendingReads s)) loadend_order] s) =
           pendingCalls s @ [(lang s, map readAsDataURL files)] \<and>
         handleImageUpload [] s = s"
  using step_Upload_FilesRead [OF assms] by (simp add: handleImageUpload_def)

theorem upload_accepted_in_every_phase_witness:
  "[''REVG''] \<noteq> [] \<and> {..<length [''REVG'']} \<subseteq> set [0::nat] \<and>
   render example_processing_state = [Processing_State] \<and>
   pendingCalls (run example_read example_parse
      [Upload [''REVG''], FilesRead (length (pendingReads example_processing_state)) [0]]
      example_processing_state) =
     [(zh, [''data:image/png;base64,QUJD'']), (zh, [''data:image/png;base64,REVG''])]"
proof -
  have h1: "[''REVG''] \<noteq> []" by simp
  have h2: "{..<length [''REVG'']} \<subseteq> set [0::nat]" by auto
  have h3: "render example_processing_state = [Processing_State]"
    by (simp add: example_processing_state_eq render_def)
  show ?thesis
    using h1 h2 h3
      upload_accepted_in_every_phase [OF h1 h2, of example_read example_parse example_processing_state]
    by (simp add: example_processing_state_eq example_read_def)
qed

lemma two_offered_selections_two_calls:
  "feasible example_read example_parse
     [Upload [''QUJD''], Upload [''REVG''], FilesRead 0 [0], FilesRead 0 [0]] App_init \<and>
   length (pendingCalls (run example_read example_parse
     [Upload [''QUJD''], Upload [''REVG''], FilesRead 0 [0], FilesRead 0 [0]] App_init)) = 2"
  by (simp add: handler_defs example_read_def offered_def render_def)

subsection \<open>When the Processing state is entered\<close>

text \<open>
  Submitting one file in the initial state leaves the landing block on the screen: the
  images are stored only when the reads have been joined. In \<^verbatim>\<open>index.tsx\<close> the flag
  \<^verbatim>\<open>analyzing\<close> is not set either.
\<close>

theorem upload_does_not_render_Processing:
  "render (App_init :: string App) = [Landing_State] \<and>
   render (handleImageUpload [''QUJD''] (App_init :: string App)) = [Landing_State] \<and>
   render_ix (handleImageUpload_ix [''QUJD''] (App_ix_init :: string App_ix)) = [Landing_State] \<and>
   analyzing (handleImageUpload_ix [''QUJD''] (App_ix_init :: string App_ix)) = False"
  by (simp add: App_init_def handleImageUpload_def render_def
      App_ix_init_def handleImageUpload_ix_def render_ix_def truthy_image_def truthy_def)

text \<open>Only the join of the reads starts a call, and it leaves the processing block.\<close>

lemma onFilesRead_starts_call:
  assumes "k < length (pendingReads s)"
  shows "render (onFilesRead k base64Images s) = [Processing_State] \<and>
         pendingCalls (onFilesRead k base64Images s) =
           pendingCalls s @ [(fst (pendingReads s ! k), base64Images)]"
  using assms by (simp add: onFilesRead_def startSimulationAndAnalysis_def render_def)

lemma onCallSettled_no_new_call:
  "length (pendingCalls (onCallSettled k outcome s)) \<le> length (pendingCalls s)"
  by (simp add: onCallSettled_def Let_def length_remove_nth split: sum.splits)

lemma call_started_at_join:
  assumes "length (pendingCalls s) < length (pendingCalls (step rd p ev s))"
  shows "(\<exists>j order. ev = FilesRead j order) \<and> render (step rd p ev s) = [Processing_State]"
proof (cases ev)
  case (Upload files)
  with assms show ?thesis by (simp add: step_def handleImageUpload_def split: if_splits)
next
  case (FilesRead j order)
  with assms show ?thesis
    by (auto simp: step_def onFilesRead_def startSimulationAndAnalysis_def render_def
        split: if_splits option.splits)
next
  case (CallSettled j r)
  with assms onCallSettled_no_new_call [of j "callGemini p r" s] show ?thesis
    by (simp add: step_def)
next
  case Reset
  with assms show ?thesis by (simp add: step_def reset_def)
next
  case ToggleLanguage
  with assms show ?thesis by (simp add: step_def setLang_onClick_def)
qed

lemma handleImageUpload_ix_sets_nothing:
  "analyzing (handleImageUpload_ix files s) = analyzing s \<and>
   image_ix (handleImageUpload_ix files s) = image_ix s \<and>
   data_ix (handleImageUpload_ix files s) = data_ix s \<and>
   render_ix (handleImageUpload_ix files s) = render_ix s"
  by (cases files) (simp_all add: handleImageUpload_ix_def render_ix_def)

lemma reader_onloadend_starts_call:
  assumes "k < length (pendingReads_ix s)" and "result \<noteq> []"
  shows "render_ix (reader_onloadend k result s) = [Processing_State] \<and>
         data_ix (reader_onloadend k result s) = JNull \<and>
         pendingCalls_ix (reader_onloadend k result s) =
           pendingCalls_ix s @ [(fst (pendingReads_ix s ! k), result)]"
  using assms
  by (simp add: reader_onloadend_def analyzePlant_def render_ix_def truthy_image_def truthy_def)

lemma analyzePlant_settled_no_new_call:
  "length (pendingCalls_ix (analyzePlant_settled JSON_parse k r s)) \<le> length (pendingCalls_ix s)"
  by (simp add: analyzePlant_settled_def Let_def length_remove_nth
      split: response.splits option.splits)

lemma call_started_at_loadend:
  assumes "length (pendingCalls_ix s) < length (pendingCalls_ix (step_ix rd p ev s))"
  shows "\<exists>j. ev = LoadEnd j"
proof (cases ev)
  case (Upload_ix files)
  with assms show ?thesis
    by (cases files) (simp_all add: step_ix_def handleImageUpload_ix_def)
next
  case (LoadEnd j)
  then show ?thesis by simp
next
  case (CallSettled_ix j r)
  with assms analyzePlant_settled_no_new_call [of p j r s] show ?thesis
    by (simp add: step_ix_def)
next
  case Reset_ix
  with assms show ?thesis by (simp add: step_ix_def reset_ix_def)
next
  case ToggleLanguage_ix
  with assms show ?thesis by (simp add: step_ix_def setLang_onClick_ix_def)
qed

text \<open>
  C5, as the code has it. A selection of at least one file made in the Idle state leaves
  the landing block on the screen: in the multi-image controller it sets the processing
  flag and clears the result at once, in \<^verbatim>\<open>index.tsx\<close> it sets no state. The Processing
  state is entered when the file read has ended (the join of the reads, respectively
  \<^verbatim>\<open>onloadend\<close> with a non-empty data URL), in the very step that starts the external
  call of this submission; and no other step starts a call. So for every call the
  processing block is on the screen from the moment the call exists, before it can
  settle.
\<close>

theorem processing_entered_at_join:
  "(files \<noteq> [] \<longrightarrow>
      isProcessing (handleImageUpload files s) \<and>
      data (handleImageUpload files s) = JNull \<and>
      images (handleImageUpload files s) = images s \<and>
      render (handleImageUpload files s) =
        (if images s = None then [Landing_State] else [Processing_State])) \<and>
   (k < length (pendingReads s) \<longrightarrow>
      render (onFilesRead k base64Images s) = [Processing_State] \<and>
      pendingCalls (onFilesRead k base64Images s) =
        pendingCalls s @ [(fst (pendingReads s ! k), base64Images)]) \<and>
   (length (pendingCalls s) < length (pendingCalls (step readAsDataURL JSON_parse ev s)) \<longrightarrow>
      (\<exists>j order. ev = FilesRead j order) \<and>
      render (step readAsDataURL JSON_parse ev s) = [Processing_State]) \<and>
   (analyzing (handleImageUpload_ix files sx) = analyzing sx \<and>
    render_ix (handleImageUpload_ix files sx) = render_ix sx) \<and>
   (kx < length (pendingReads_ix sx) \<and> result \<noteq> [] \<longrightarrow>
      render_ix (reader_onloadend kx result sx) = [Processing_State] \<and>
      pendingCalls_ix (reader_onloadend kx result sx) =
        pendingCalls_ix sx @ [(fst (pendingReads_ix sx ! kx), result)]) \<and>
   (length (pendingCalls_ix sx) <
      length (pendingCalls_ix (step_ix readAsDataURL JSON_parse evx sx)) \<longrightarrow>
      (\<exists>j. evx = LoadEnd j))"
  using onFilesRead_starts_call [of k s base64Images]
    call_started_at_join [of s readAsDataURL JSON_parse ev]
    handleImageUpload_ix_sets_nothing [of files sx]
    reader_onloadend_starts_call [of kx sx result]
    call_started_at_loadend [of sx readAsDataURL JSON_parse evx]
  by (simp add: handleImageUpload_def render_def)

theorem processing_entered_at_join_witness:
  "[''QUJD''] \<noteq> [] \<and>
   isProcessing (handleImageUpload [''QUJD''] (App_init :: string App)) \<and>
   render (handleImageUpload [''QUJD''] (App_init :: string App)) = [Landing_State] \<and>
   0 < length (pendingReads (handleImageUpload [''QUJD''] (App_init :: string App))) \<and>
   render (onFilesRead 0 [''data:image/png;base64,QUJD'']
     (handleImageUpload [''QUJD''] (App_init :: string App))) = [Processing_State] \<and>
   pendingCalls (onFilesRead 0 [''data:image/png;base64,QUJD'']
     (handleImageUpload [''QUJD''] (App_init :: string App))) =
     [(zh, [''data:image/png;base64,QUJD''])] \<and>
   length (pendingCalls (handleImageUpload [''QUJD''] (App_init :: string App))) <
     length (pendingCalls (step example_read example_parse (FilesRead 0 [0])
       (handleImageUpload [''QUJD''] (App_init :: string App)))) \<and>
   render (step example_read example_parse (FilesRead 0 [0])
     (handleImageUpload [''QUJD''] (App_init :: string App))) = [Processing_State] \<and>
   0 < length (pendingReads_ix (handleImageUpload_ix [''QUJD''] (App_ix_init :: string App_ix))) \<and>
   ''data:image/png;base64,QUJD'' \<noteq> [] \<and>
   render_ix (reader_onloadend 0 ''data:image/png;base64,QUJD''
     (handleImageUpload_ix [''QUJD''] (App_ix_init :: string App_ix))) = [Processing_State]"
  using processing_entered_at_join [where files = "[''QUJD'']" and s = "App_init :: string App"]
    processing_entered_at_join [where k = 0 and base64Images = "[''data:image/png;base64,QUJD'']"
      and s = "handleImageUpload [''QUJD''] (App_init :: string App)"
      and readAsDataURL = example_read and JSON_parse = example_parse and ev = "FilesRead 0 [0]"
      and kx = 0 and result = "''data:image/png;base64,QUJD''"
      and sx = "handleImageUpload_ix [''QUJD''] (App_ix_init :: string App_ix)"]
  by (simp add: handler_defs example_read_def render_def App_ix_init_def
      handleImageUpload_ix_def)

subsection \<open>The result while processing\<close>

text \<open>
  With the two overlapping submissions, each made while the landing block offers the
  upload button, the processing block is on the screen while the result of the first
  call is stored.
\<close>

theorem stale_result_while_processing:
  "feasible example_read example_parse overlapping_trace App_init \<and>
   render (run example_read example_parse overlapping_trace App_init) = [Processing_State] \<and>
   data (run example_read example_parse overlapping_trace App_init) =
     PlantData_json healthy_plant"
  by (simp add: overlapping_trace_def handler_defs example_read_def example_parse_def
      offered_def render_def result_block_def)

text \<open>
  C10, as the code has it. In every execution that submits one at a time, no result is
  stored whenever the processing flag is set, in particular whenever the processing
  block is on the screen.
\<close>

theorem processing_implies_no_result:
  assumes "one_at_a_time readAsDataURL JSON_parse evs App_init"
    and "isProcessing (run readAsDataURL JSON_parse evs App_init)"
  shows "data (run readAsDataURL JSON_parse evs App_init) = JNull"
  using one_pending_run [OF one_pending_init assms(1)] assms(2)
  by (simp add: one_pending_def)

theorem processing_implies_no_result_witness:
  "one_at_a_time example_read example_parse [Upload [''QUJD''], FilesRead 0 [0]] App_init \<and>
   isProcessing (run example_read example_parse [Upload [''QUJD''], FilesRead 0 [0]] App_init) \<and>
   data (run example_read example_parse [Upload [''QUJD''], FilesRead 0 [0]] App_init) = JNull"
proof -
  have h1: "one_at_a_time example_read example_parse
              [Upload [''QUJD''], FilesRead 0 [0]] (App_init :: string App)"
    by (simp add: handler_defs quiescent_def)
  have h2: "isProcessing (run example_read example_parse
              [Upload [''QUJD''], FilesRead 0 [0]] App_init)"
    by (simp add: handler_defs)
  show ?thesis using h1 h2 processing_implies_no_result [OF h1 h2] by simp
qed

text \<open>A second submission after a stored result is covered as well.\<close>

lemma second_submission_clears_result:
  "one_at_a_time example_read example_parse
     [Upload [''QUJD''], FilesRead 0 [0], CallSettled 0 (Resolved (Some ''{healthy}'')),
      Upload [''REVG''], FilesRead 0 [0]] App_init \<and>
   isProcessing (run example_read example_parse
     [Upload [''QUJD''], FilesRead 0 [0], CallSettled 0 (Resolved (Some ''{healthy}'')),
      Upload [''REVG''], FilesRead 0 [0]] App_init) \<and>
   data (run example_read example_parse
     [Upload [''QUJD''], FilesRead 0 [0], CallSettled 0 (Resolved (Some ''{healthy}'')),
      Upload [''REVG''], FilesRead 0 [0]] App_init) = JNull"
  by (simp add: handler_defs quiescent_def example_read_def example_parse_def)

lemma Result_not_while_processing:
  "Result_State secs \<in> set (render s) \<Longrightarrow> \<not> isProcessing s"
  by (auto simp: render_def split: if_splits)

subsection \<open>The single-image controller\<close>

text \<open>
  The same properties for \<^verbatim>\<open>index.tsx\<close>. \<^verbatim>\<open>analyzePlant\<close> sets the flag and clears the
  result in one step, so there no result is stored while the flag is set in any
  execution, overlapping submissions included.
\<close>

lemma analyzePlant_settled_failure:
  assumes "k < length (pendingCalls_ix s)"
    and "r = Rejected \<or> (\<exists>jsonText. r = Resolved (Some jsonText) \<and> jsonText \<noteq> [] \<and>
           JSON_parse jsonText = None)"
  shows "alerts_ix (analyzePlant_settled JSON_parse k r s) =
           alerts_ix s @ [translations_error_ix (fst (pendingCalls_ix s ! k))] \<and>
         image_ix (analyzePlant_settled JSON_parse k r s) = None \<and>
         render_ix (analyzePlant_settled JSON_parse k r s) = [Landing_State]"
  using assms
  by (auto simp: analyzePlant_settled_def render_ix_def truthy_image_def Let_def)

lemma analyzePlant_settled_empty:
  assumes "k < length (pendingCalls_ix s)" and "r = Resolved None \<or> r = Resolved (Some [])"
  shows "analyzePlant_settled JSON_parse k r s =
           s\<lparr>pendingCalls_ix := remove_nth k (pendingCalls_ix s), analyzing := False\<rparr>"
  using assms by (auto simp: analyzePlant_settled_def Let_def)

lemma empty_response_renders_nothing_ix:
  assumes "k < length (pendingCalls_ix s)" and "r = Resolved None \<or> r = Resolved (Some [])"
    and "render_ix s = [Processing_State]" and "data_ix s = JNull"
  shows "render_ix (analyzePlant_settled JSON_parse k r s) = [] \<and>
         alerts_ix (analyzePlant_settled JSON_parse k r s) = alerts_ix s \<and>
         image_ix (analyzePlant_settled JSON_parse k r s) = image_ix s"
  using assms(3,4) unfolding analyzePlant_settled_empty [OF assms(1,2)]
  by (auto simp: render_ix_def truthy_def split: if_splits)

text \<open>The text \<^verbatim>\<open>null\<close> is stored as it is and leaves the page as empty.\<close>

lemma null_response_renders_nothing_ix:
  assumes "k < length (pendingCalls_ix s)" and "render_ix s = [Processing_State]"
    and "jsonText \<noteq> []" and "JSON_parse jsonText = Some JNull"
  shows "render_ix (analyzePlant_settled JSON_parse k (Resolved (Some jsonText)) s) = [] \<and>
         alerts_ix (analyzePlant_settled JSON_parse k (Resolved (Some jsonText)) s) = alerts_ix s \<and>
         data_ix (analyzePlant_settled JSON_parse k (Resolved (Some jsonText)) s) = JNull"
  using assms
  by (auto simp: analyzePlant_settled_def render_ix_def truthy_def Let_def split: if_splits)

lemma analyzePlant_settled_success:
  assumes "k < length (pendingCalls_ix s)" and "render_ix s = [Processing_State]"
    and "jsonText \<noteq> []" and "JSON_parse jsonText = Some v" and "as_PlantData v = Some d"
  shows "render_ix (analyzePlant_settled JSON_parse k (Resolved (Some jsonText)) s) =
           [Result_State (result_sections d)] \<and>
         data_ix (analyzePlant_settled JSON_parse k (Resolved (Some jsonText)) s) = v"
  using assms as_PlantData_truthy [OF assms(5)] result_block_conforming [OF assms(5)]
  by (auto simp: analyzePlant_settled_def render_ix_def Let_def split: if_splits)

lemma reset_ix_from_Result:
  "render_ix s = [Result_State secs] \<Longrightarrow>
   render_ix (reset_ix s) = [Landing_State] \<and> image_ix (reset_ix s) = None \<and>
   data_ix (reset_ix s) = JNull"
  by (simp add: reset_ix_def render_ix_def truthy_image_def)

lemma setLang_onClick_ix_frame:
  "lang_ix (setLang_onClick_ix s) = (case lang_ix s of zh \<Rightarrow> en | en \<Rightarrow> zh) \<and>
   image_ix (setLang_onClick_ix s) = image_ix s \<and>
   data_ix (setLang_onClick_ix s) = data_ix s \<and>
   analyzing (setLang_onClick_ix s) = analyzing s \<and>
   render_ix (setLang_onClick_ix s) = render_ix s"
  by (simp add: setLang_onClick_ix_def render_ix_def split: Lang.splits)

lemma treatment_section_iff_ix:
  assumes "render_ix s = [Result_State secs]"
  shows "\<exists>d. as_PlantData (data_ix s) = Some d \<and>
           ((\<exists>ings. Compliance_Medication ings \<in> set secs) \<longleftrightarrow> treatmentIngredients d \<noteq> [])"
  using assms
  by (auto simp: render_ix_def result_block_Result_State result_sections_def split: if_splits)

lemma step_ix_keeps_no_result:
  assumes "analyzing s \<longrightarrow> data_ix s = JNull"
  shows "analyzing (step_ix rd p ev s) \<longrightarrow> data_ix (step_ix rd p ev s) = JNull"
proof (cases ev)
  case (Upload_ix files)
  with assms show ?thesis
    by (simp add: step_ix_def handleImageUpload_ix_def split: list.splits)
next
  case (LoadEnd k)
  with assms show ?thesis
    by (simp add: step_ix_def reader_onloadend_def analyzePlant_def)
next
  case (CallSettled_ix k r)
  with assms show ?thesis
    by (simp add: step_ix_def analyzePlant_settled_def Let_def)
next
  case Reset_ix
  with assms show ?thesis by (simp add: step_ix_def reset_ix_def)
next
  case ToggleLanguage_ix
  with assms show ?thesis by (simp add: step_ix_def setLang_onClick_ix_def)
qed

lemma run_ix_keeps_no_result:
  "(analyzing s \<longrightarrow> data_ix s = JNull) \<Longrightarrow>
   analyzing (run_ix rd p evs s) \<longrightarrow> data_ix (run_ix rd p evs s) = JNull"
proof (induction evs arbitrary: s)
  case Nil
  then show ?case by simp
next
  case (Cons ev evs)
  from Cons.prems have "analyzing (step_ix rd p ev s) \<longrightarrow> data_ix (step_ix rd p ev s) = JNull"
    by (rule step_ix_keeps_no_result)
  then show ?case using Cons.IH by simp
qed

lemma analyzing_implies_no_result_ix:
  "analyzing (run_ix rd p evs App_ix_init) \<Longrightarrow> data_ix (run_ix rd p evs App_ix_init) = JNull"
  using run_ix_keeps_no_result [of App_ix_init rd p evs] by (simp add: App_ix_init_def)

end
